theory Spec2Isabelle
  imports Main "HOL-Library.Word"
begin

section \<open>Go values shared by both discovery sources\<close>

text \<open>
  The package has two discovery sources, \<open>consulDiscoverySource\<close> and
  \<open>etcdDiscoverySource\<close>. Their structs repeat the same fields under the same names, so the
  shared fields are one record and each source extends it. Go's \<open>int64\<close> is a 64-bit word,
  a Go \<open>error\<close> is a value carrying its message (\<open>nil\<close> is \<open>None\<close>), and a run-time
  panic is a value of its own.
\<close>

type_synonym int64 = "64 word"

datatype error = Error string

datatype panic = NilPointerDereference | IndexOutOfRange

text \<open>
  \<open>registerConfiguration\<close> is the bundle \<open>loadServiceRegisterConfiguration\<close> returns. Only
  the fields the two sources read are kept; nested fields are flattened
  (\<open>Server.HTTP.Port\<close> is \<open>Server_HTTP_Port\<close>).
\<close>

record registerConfiguration =
  Name :: string
  Env_Name :: string
  Version :: string
  Server_HTTP_Port :: int
  Server_HTTP_Address :: string
  Server_BaseURL :: string
  Discovery_TTL :: int64
  Discovery_PingInterval :: int64

text \<open>
  Of \<open>RegisterOptions\<close> the two sources read \<open>Singleton\<close> only; the other fields go
  through \<open>loadServiceRegisterConfiguration\<close> into the bundle above.
\<close>

record RegisterOptions =
  Singleton :: bool

record gatewayURLWatch =
  gatewayID :: string
  gatewayURL :: string

text \<open>The fields every service instance has: \<open>isRegistered\<close>, \<open>id\<close>, \<open>singleton\<close>.\<close>

record serviceInstance =
  isRegistered :: bool
  id' :: string
  singleton :: bool

record consulServiceInstance = serviceInstance +
  name :: string
  versionTag :: string

record etcdServiceInstance = serviceInstance +
  etcdKeyDir :: string
  serviceURL :: string

text \<open>
  The fields every discovery source has. \<open>options\<close> and \<open>serviceInstance\<close> are pointers
  that are \<open>nil\<close> until \<open>RegisterService\<close> assigns them. The client, the logger and
  \<open>configOptions\<close> are not state of the model: the client's answers are an argument of
  each operation.
\<close>

record 'i discoverySource =
  startRetryDelay :: int64
  maxRetryDelay :: int64
  options :: "registerConfiguration option"
  serviceInstance :: "'i option"
  lastKnownService :: string
  gatewayURLs :: "gatewayURLWatch list"

record consulDiscoverySource = "consulServiceInstance discoverySource" +
  protocol :: string

type_synonym etcdDiscoverySource = "etcdServiceInstance discoverySource"

section \<open>The backends, as the answers they give\<close>

text \<open>
  The Consul agent and the etcd keys API are outside the package. A client is modelled by
  what it answers to each call at one moment; a sequence of clients is a backend that
  changes over time.
\<close>

record AgentServiceRegistration =
  reg_Port :: int
  reg_ID :: string
  reg_Name :: string
  reg_Tags :: "string list"
  reg_Address :: string
  reg_CheckID :: string
  reg_TTL :: string
  reg_DeregisterCriticalServiceAfter :: string

record ServiceEntry =
  Node_Address :: string
  Service_ID :: string
  Service_Tags :: "string list"
  Service_Address :: string
  Service_Port :: int

record consulClient =
  ServiceRegister :: "AgentServiceRegistration \<Rightarrow> error option"
  UpdateTTL :: "string \<Rightarrow> string \<Rightarrow> error option"
  ServiceDeregister :: "string \<Rightarrow> error option"
  Health_Service :: "string \<Rightarrow> string \<Rightarrow> bool \<Rightarrow> error + ServiceEntry list"

datatype Node = Node (Key: string) (Value: string) (Nodes: "Node list")

record etcdClient =
  Set_Dir :: "string \<Rightarrow> int64 \<Rightarrow> error option"
  Set_Value :: "string \<Rightarrow> string \<Rightarrow> error option"
  Refresh_Dir :: "string \<Rightarrow> int64 \<Rightarrow> error option"
  Delete_Dir :: "string \<Rightarrow> error option"
  Get_Recursive :: "string \<Rightarrow> error + Node"

section \<open>Strings\<close>

text \<open>
  \<open>strconv.FormatInt(n, 10)\<close> and the \<open>%d\<close> verb print a signed decimal numeral.
\<close>

definition digit :: "nat \<Rightarrow> char" where
  "digit n = ''0123456789'' ! (n mod 10)"

fun FormatNat :: "nat \<Rightarrow> string" where
  "FormatNat n = (if n < 10 then [digit n] else FormatNat (n div 10) @ [digit n])"

declare FormatNat.simps [simp del]

definition FormatInt :: "int \<Rightarrow> string" where
  "FormatInt i = (if i < 0 then CHR ''-'' # FormatNat (nat (- i)) else FormatNat (nat i))"

text \<open>
  \<open>path.Base\<close>: the last element of a slash-separated path; trailing slashes are removed
  first; the empty path gives \<open>"."\<close> and a path of slashes only gives \<open>"/"\<close>.
\<close>

definition strip_trailing_slashes :: "string \<Rightarrow> string" where
  "strip_trailing_slashes p = rev (dropWhile (\<lambda>c. c = CHR ''/'') (rev p))"

definition last_element :: "string \<Rightarrow> string" where
  "last_element p = rev (takeWhile (\<lambda>c. c \<noteq> CHR ''/'') (rev p))"

definition Base :: "string \<Rightarrow> string" where
  "Base p =
     (if p = [] then ''.''
      else let q = last_element (strip_trailing_slashes p)
           in if q = [] then ''/'' else q)"

section \<open>Deregistration\<close>

text \<open>
  \<open>DeregisterService\<close> formats \<open>d.serviceInstance.id\<close> into a log line before anything
  else, so a \<open>nil\<close> \<open>serviceInstance\<close> panics. Otherwise it asks the backend to remove the
  record and returns the backend's error. It writes to no field of the source.
\<close>

definition consul_DeregisterService ::
  "consulClient \<Rightarrow> consulDiscoverySource \<Rightarrow> panic + error option" where
  "consul_DeregisterService client d =
     (case serviceInstance d of
        None \<Rightarrow> Inl NilPointerDereference
      | Some inst \<Rightarrow> Inr (ServiceDeregister client (id' inst)))"

definition etcd_DeregisterService ::
  "etcdClient \<Rightarrow> etcdDiscoverySource \<Rightarrow> panic + error option" where
  "etcd_DeregisterService client d =
     (case serviceInstance d of
        None \<Rightarrow> Inl NilPointerDereference
      | Some inst \<Rightarrow> Inr (Delete_Dir client (etcdKeyDir inst)))"

section \<open>Registration\<close>

text \<open>
  \<open>RegisterService\<close> stores the loaded configuration and a fresh service instance, starts
  \<open>run(d.startRetryDelay)\<close> as a goroutine and returns the instance id with a \<open>nil\<close>
  error. \<open>loadServiceRegisterConfiguration\<close> and the random UUID are arguments. The
  result is the returned pair, the updated source and the argument of the started \<open>run\<close>.
\<close>

definition consul_RegisterService ::
  "(RegisterOptions \<Rightarrow> registerConfiguration) \<Rightarrow> string \<Rightarrow> RegisterOptions \<Rightarrow>
   consulDiscoverySource \<Rightarrow> (string \<times> error option) \<times> consulDiscoverySource \<times> int64" where
  "consul_RegisterService loadServiceRegisterConfiguration uuid4 opts d =
     (let regconf = loadServiceRegisterConfiguration opts;
          inst = \<lparr>isRegistered = False,
                  id' = Name regconf @ ''-'' @ uuid4,
                  singleton = Singleton opts,
                  name = Env_Name regconf @ ''-'' @ Name regconf,
                  versionTag = ''version='' @ Version regconf\<rparr>;
          d' = d\<lparr>options := Some regconf, serviceInstance := Some inst\<rparr>
      in ((id' inst, None), d', startRetryDelay d))"

definition etcd_RegisterService ::
  "(RegisterOptions \<Rightarrow> registerConfiguration) \<Rightarrow> string \<Rightarrow> RegisterOptions \<Rightarrow>
   etcdDiscoverySource \<Rightarrow> (string \<times> error option) \<times> etcdDiscoverySource \<times> int64" where
  "etcd_RegisterService loadServiceRegisterConfiguration uuid4 opts d =
     (let regconf = loadServiceRegisterConfiguration opts;
          inst = \<lparr>isRegistered = False,
                  id' = uuid4,
                  singleton = Singleton opts,
                  etcdKeyDir = ''/environments/'' @ Env_Name regconf @ ''/services/'' @ Name regconf
                     @ ''/'' @ Version regconf @ ''/instances/'' @ uuid4,
                  serviceURL = []\<rparr>;
          d' = d\<lparr>options := Some regconf, serviceInstance := Some inst\<rparr>
      in ((id' inst, None), d', startRetryDelay d))"

subsection \<open>One registration attempt, one TTL update\<close>

text \<open>
  The methods below read \<open>d.serviceInstance\<close> and \<open>d.options\<close>; here they take the two
  dereferenced values, and \<open>run\<close> does the dereferencing.

  Consul's \<open>isServiceRegistered\<close> asks the health endpoint for the passing services whose
  service name is \<open>reg.id\<close>, with no tag filter.
\<close>

definition consul_isServiceRegistered :: "consulClient \<Rightarrow> consulServiceInstance \<Rightarrow> bool" where
  "consul_isServiceRegistered client reg =
     (case Health_Service client (id' reg) [] True of
        Inl err \<Rightarrow> False
      | Inr serviceEntries \<Rightarrow> length serviceEntries > 0)"

definition consul_agentRegistration ::
  "consulDiscoverySource \<Rightarrow> consulServiceInstance \<Rightarrow> registerConfiguration \<Rightarrow>
   AgentServiceRegistration" where
  "consul_agentRegistration d inst opts =
     \<lparr>reg_Port = Server_HTTP_Port opts,
      reg_ID = id' inst,
      reg_Name = name inst,
      reg_Tags = [protocol d, versionTag inst],
      reg_Address = (if Server_HTTP_Address opts \<noteq> [] then Server_HTTP_Address opts else []),
      reg_CheckID = ''check-'' @ id' inst,
      reg_TTL = FormatInt (sint (Discovery_TTL opts)) @ ''s'',
      reg_DeregisterCriticalServiceAfter = FormatInt 10 @ ''s''\<rparr>"

definition consul_register ::
  "consulClient \<Rightarrow> consulDiscoverySource \<Rightarrow> consulServiceInstance \<Rightarrow> registerConfiguration \<Rightarrow>
   bool" where
  "consul_register client d inst opts =
     (if consul_isServiceRegistered client inst \<and> singleton inst then False
      else case ServiceRegister client (consul_agentRegistration d inst opts) of
             Some err \<Rightarrow> False
           | None \<Rightarrow> True)"

text \<open>
  The output text of \<open>UpdateTTL\<close> carries the wall-clock time and is left out of the call.
\<close>

definition consul_ttlUpdate :: "consulClient \<Rightarrow> consulServiceInstance \<Rightarrow> bool" where
  "consul_ttlUpdate client inst =
     (case UpdateTTL client (''check-'' @ id' inst) ''passing'' of
        Some err \<Rightarrow> False
      | None \<Rightarrow> True)"

text \<open>
  etcd's \<open>isServiceRegistered\<close> lists the instances under the service's own
  environment, name and version and looks for one that has a non-empty \<open>url\<close> and is not
  \<open>disabled\<close>. The inner loop keeps the last \<open>url\<close> it sees and clears \<open>isActive\<close> at
  any \<open>status\<close> node with the value \<open>disabled\<close>.
\<close>

fun etcd_scan_instance :: "Node list \<Rightarrow> string \<times> bool \<Rightarrow> string \<times> bool" where
  "etcd_scan_instance [] (URL, isActive) = (URL, isActive)"
| "etcd_scan_instance (node # nodes) (URL, isActive) =
     (let URL1 = (if Base (Key node) = ''url'' then Value node else URL);
          isActive1 = (if Base (Key node) = ''status'' \<and> Value node = ''disabled'' then False
                       else isActive)
      in etcd_scan_instance nodes (URL1, isActive1))"

fun etcd_any_active :: "Node list \<Rightarrow> bool" where
  "etcd_any_active [] = False"
| "etcd_any_active (inst # insts) =
     (case etcd_scan_instance (Nodes inst) ([], True) of
        (URL, isActive) \<Rightarrow> if isActive \<and> URL \<noteq> [] then True else etcd_any_active insts)"

definition etcd_isServiceRegistered :: "etcdClient \<Rightarrow> registerConfiguration \<Rightarrow> bool" where
  "etcd_isServiceRegistered client opts =
     (case Get_Recursive client (''/environments/'' @ Env_Name opts @ ''/services/'' @ Name opts
              @ ''/'' @ Version opts @ ''/instances/'') of
        Inl err \<Rightarrow> False
      | Inr resp_Node \<Rightarrow> etcd_any_active (Nodes resp_Node))"

text \<open>
  \<open>time.Duration(n) * time.Second\<close> and \<open>* time.Millisecond\<close> are \<open>int64\<close> products.
\<close>

definition Second :: int64 where
  "Second = 1000000000"

definition Millisecond :: int64 where
  "Millisecond = 1000000"

text \<open>
  etcd's \<open>register\<close> writes \<open>serviceURL\<close> into the instance before it talks to the
  store, so the instance is part of the result.
\<close>

definition etcd_register ::
  "etcdClient \<Rightarrow> etcdServiceInstance \<Rightarrow> registerConfiguration \<Rightarrow> bool \<times> etcdServiceInstance" where
  "etcd_register client inst opts =
     (if etcd_isServiceRegistered client opts \<and> singleton inst then (False, inst)
      else let inst1 = inst\<lparr>serviceURL := Server_BaseURL opts\<rparr>
           in case Set_Dir client (etcdKeyDir inst1) (Discovery_TTL opts * Second) of
                Some err \<Rightarrow> (False, inst1)
              | None \<Rightarrow>
                  (case Set_Value client (etcdKeyDir inst1 @ ''/url'') (serviceURL inst1) of
                     Some err \<Rightarrow> (False, inst1)
                   | None \<Rightarrow> (True, inst1)))"

definition etcd_ttlUpdate :: "etcdClient \<Rightarrow> etcdServiceInstance \<Rightarrow> registerConfiguration \<Rightarrow> bool" where
  "etcd_ttlUpdate client inst opts =
     (case Refresh_Dir client (etcdKeyDir inst) (Discovery_TTL opts * Second) of
        Some err \<Rightarrow> False
      | None \<Rightarrow> True)"

subsection \<open>The background loop\<close>

text \<open>
  \<open>run(retryDelay)\<close> makes one attempt (a registration when the instance is not
  registered, a TTL update otherwise), sleeps, and calls itself with the next delay; it has
  no branch that returns without calling itself. One call up to its recursive call is one
  step: the result is the updated source, the argument of the recursive call and what the
  step did. \<open>run\<close> is started by \<open>RegisterService\<close> only, after both pointers are set; a
  \<open>nil\<close> pointer is a panic of the step.

  The comparison of two \<open>int64\<close> values is signed.
\<close>

datatype attempt = RegisterAttempt | TTLUpdateAttempt

datatype event =
    Attempt attempt int64 bool
  | Sleep int64
  | Deregistered "error option"

definition newRetryDelay :: "int64 \<Rightarrow> int64 \<Rightarrow> int64" where
  "newRetryDelay maxRD retryDelay =
     (let n = retryDelay * 2 in if sint n > sint maxRD then maxRD else n)"

definition consul_run ::
  "consulClient \<Rightarrow> consulDiscoverySource \<Rightarrow> int64 \<Rightarrow>
   panic + (consulDiscoverySource \<times> int64 \<times> event list)" where
  "consul_run client d retryDelay =
     (case serviceInstance d of
        None \<Rightarrow> Inl NilPointerDereference
      | Some inst \<Rightarrow>
     (case options d of
        None \<Rightarrow> Inl NilPointerDereference
      | Some opts \<Rightarrow>
          let (ok, firstTTL, inst1, att) =
                (if \<not> isRegistered inst then
                   let ok = consul_register client d inst opts
                   in (ok, ok, (if ok then inst\<lparr>isRegistered := True\<rparr> else inst),
                       RegisterAttempt)
                 else
                   let ok = consul_ttlUpdate client inst
                   in (ok, False, (if \<not> ok then inst\<lparr>isRegistered := False\<rparr> else inst),
                       TTLUpdateAttempt));
              d1 = d\<lparr>serviceInstance := Some inst1\<rparr>
          in if \<not> ok then
               Inr (d1, newRetryDelay (maxRetryDelay d) retryDelay,
                    [Attempt att retryDelay ok, Sleep (retryDelay * Millisecond)])
             else
               Inr (d1, startRetryDelay d,
                    Attempt att retryDelay ok #
                      (if \<not> firstTTL then [Sleep (Discovery_PingInterval opts * Second)]
                       else []))))"

definition etcd_run ::
  "etcdClient \<Rightarrow> etcdDiscoverySource \<Rightarrow> int64 \<Rightarrow>
   panic + (etcdDiscoverySource \<times> int64 \<times> event list)" where
  "etcd_run client d retryDelay =
     (case serviceInstance d of
        None \<Rightarrow> Inl NilPointerDereference
      | Some inst \<Rightarrow>
     (case options d of
        None \<Rightarrow> Inl NilPointerDereference
      | Some opts \<Rightarrow>
          let (ok, inst1, att) =
                (if \<not> isRegistered inst then
                   (case etcd_register client inst opts of
                      (ok, inst0) \<Rightarrow>
                        (ok, (if ok then inst0\<lparr>isRegistered := True\<rparr> else inst0),
                         RegisterAttempt))
                 else
                   let ok = etcd_ttlUpdate client inst opts
                   in (ok, (if \<not> ok then inst\<lparr>isRegistered := False\<rparr> else inst),
                       TTLUpdateAttempt));
              d1 = d\<lparr>serviceInstance := Some inst1\<rparr>
          in if \<not> ok then
               Inr (d1, newRetryDelay (maxRetryDelay d) retryDelay,
                    [Attempt att retryDelay ok, Sleep (retryDelay * Millisecond)])
             else
               Inr (d1, startRetryDelay d,
                    [Attempt att retryDelay ok, Sleep (Discovery_PingInterval opts * Second)])))"

text \<open>
  The loop runs beside the caller. A schedule lists, in the order they happen, the steps of
  the loop and the caller's \<open>DeregisterService\<close> calls, each with the client as it answers
  at that moment. A panic ends the program.
\<close>

datatype 'c action = Iterate 'c | CallDeregister 'c

fun consul_exec ::
  "consulClient action list \<Rightarrow> consulDiscoverySource \<times> int64 \<Rightarrow>
   panic + ((consulDiscoverySource \<times> int64) \<times> event list)" where
  "consul_exec [] s = Inr (s, [])"
| "consul_exec (Iterate c # as) (d, retryDelay) =
     (case consul_run c d retryDelay of
        Inl p \<Rightarrow> Inl p
      | Inr (d1, retryDelay1, evs) \<Rightarrow>
          (case consul_exec as (d1, retryDelay1) of
             Inl p \<Rightarrow> Inl p
           | Inr (s, tr) \<Rightarrow> Inr (s, evs @ tr)))"
| "consul_exec (CallDeregister c # as) (d, retryDelay) =
     (case consul_DeregisterService c d of
        Inl p \<Rightarrow> Inl p
      | Inr err \<Rightarrow>
          (case consul_exec as (d, retryDelay) of
             Inl p \<Rightarrow> Inl p
           | Inr (s, tr) \<Rightarrow> Inr (s, Deregistered err # tr)))"

fun etcd_exec ::
  "etcdClient action list \<Rightarrow> etcdDiscoverySource \<times> int64 \<Rightarrow>
   panic + ((etcdDiscoverySource \<times> int64) \<times> event list)" where
  "etcd_exec [] s = Inr (s, [])"
| "etcd_exec (Iterate c # as) (d, retryDelay) =
     (case etcd_run c d retryDelay of
        Inl p \<Rightarrow> Inl p
      | Inr (d1, retryDelay1, evs) \<Rightarrow>
          (case etcd_exec as (d1, retryDelay1) of
             Inl p \<Rightarrow> Inl p
           | Inr (s, tr) \<Rightarrow> Inr (s, evs @ tr)))"
| "etcd_exec (CallDeregister c # as) (d, retryDelay) =
     (case etcd_DeregisterService c d of
        Inl p \<Rightarrow> Inl p
      | Inr err \<Rightarrow>
          (case etcd_exec as (d, retryDelay) of
             Inl p \<Rightarrow> Inl p
           | Inr (s, tr) \<Rightarrow> Inr (s, Deregistered err # tr)))"

text \<open>What a trace shows of the loop: its attempts, in order.\<close>

fun is_attempt :: "event \<Rightarrow> bool" where
  "is_attempt (Attempt a r ok) = True"
| "is_attempt e = False"

fun is_iterate :: "'c action \<Rightarrow> bool" where
  "is_iterate (Iterate c) = True"
| "is_iterate a = False"

fun is_deregistered :: "event \<Rightarrow> bool" where
  "is_deregistered (Deregistered err) = True"
| "is_deregistered e = False"

text \<open>The attempts of a trace, each with the delay it was made with and its outcome.\<close>

fun attempts :: "event list \<Rightarrow> (int64 \<times> bool) list" where
  "attempts [] = []"
| "attempts (Attempt a r ok # es) = (r, ok) # attempts es"
| "attempts (e # es) = attempts es"

text \<open>
  The waits after failures: the durations of the sleeps that directly follow a failed
  attempt, in nanoseconds as \<open>time.Sleep\<close> gets them.
\<close>

fun failure_waits :: "event list \<Rightarrow> int64 list" where
  "failure_waits [] = []"
| "failure_waits (Attempt a r False # Sleep t # es) = t # failure_waits es"
| "failure_waits (e # es) = failure_waits es"

text \<open>
  The delay sequence in the specification's words, over the integers: the first attempt
  uses the start delay; after a failure the next delay is twice the current one, clamped at
  the maximum; after a success it is the start delay again. \<open>cur\<close> is the delay of the
  next attempt, the list gives the outcomes of the attempts.
\<close>

fun spec_delays :: "int \<Rightarrow> int \<Rightarrow> int \<Rightarrow> bool list \<Rightarrow> int list" where
  "spec_delays cur startDelay maxDelay [] = []"
| "spec_delays cur startDelay maxDelay (ok # oks) =
     cur # spec_delays (if ok then startDelay else min (2 * cur) maxDelay) startDelay maxDelay oks"

text \<open>The trace of a run, without the final state.\<close>

definition trace_of :: "panic + ('s \<times> event list) \<Rightarrow> panic + event list" where
  "trace_of r = (case r of Inl p \<Rightarrow> Inl p | Inr (s, tr) \<Rightarrow> Inr tr)"

section \<open>Construction\<close>

text \<open>
  \<open>newConsulDiscoverySource\<close> and \<open>newEtcdDiscoverySource\<close> set the retry delays (from
  \<open>getRetryDelays\<close>, here arguments) and, for Consul, the protocol, which is \<open>http\<close> when
  the configuration has none. Every other field keeps Go's zero value.
\<close>

definition newConsulDiscoverySource ::
  "int64 \<Rightarrow> int64 \<Rightarrow> string option \<Rightarrow> consulDiscoverySource" where
  "newConsulDiscoverySource startRD maxRD p =
     \<lparr>startRetryDelay = startRD, maxRetryDelay = maxRD, options = None,
      serviceInstance = None, lastKnownService = [], gatewayURLs = [],
      protocol = (case p of Some v \<Rightarrow> v | None \<Rightarrow> ''http'')\<rparr>"

definition newEtcdDiscoverySource :: "int64 \<Rightarrow> int64 \<Rightarrow> etcdDiscoverySource" where
  "newEtcdDiscoverySource startRD maxRD =
     \<lparr>startRetryDelay = startRD, maxRetryDelay = maxRD, options = None,
      serviceInstance = None, lastKnownService = [], gatewayURLs = []\<rparr>"

section \<open>Discovery\<close>

text \<open>
  \<open>DiscoverOptions\<close> as the caller passes it (\<open>Value\<close> and \<open>Version\<close> carry a prime
  here, the plain names being taken), and \<open>discoveredService\<close>, one parsed instance (its
  field \<open>id\<close> is \<open>service_id\<close> here). The type of a parsed semantic version belongs to
  the \<open>semver\<close> package and stays a type variable.
\<close>

record DiscoverOptions =
  Value' :: string
  Environment :: string
  Version' :: string
  AccessType :: string

record 'v discoveredService =
  service_id :: string
  version :: 'v
  directURL :: string

text \<open>
  What \<open>DiscoverService\<close> calls outside this file: \<open>semver.ParseTolerant\<close>, the
  \<open>String\<close> method and the zero value of a version, \<open>GetString\<close> of the configuration
  utility made for a namespace (namespace first, key second), and the package's own
  \<open>fillDefaultDiscoverOptions\<close> and \<open>pickRandomServiceInstance\<close>, which are defined in
  another file of the package.
\<close>

record 'v collaborators =
  ParseTolerant :: "string \<Rightarrow> error + 'v"
  Version_String :: "'v \<Rightarrow> string"
  Version_zero :: 'v
  GetString :: "string \<Rightarrow> string \<Rightarrow> string \<times> bool"
  fillDefaultDiscoverOptions :: "DiscoverOptions \<Rightarrow> DiscoverOptions"
  pickRandomServiceInstance ::
    "'v discoveredService list \<Rightarrow> gatewayURLWatch list \<Rightarrow> DiscoverOptions \<Rightarrow> string \<Rightarrow>
     string \<times> error option"

text \<open>
  What a call does to the configuration subsystem: a read of a key in a namespace, a
  subscription to a key in a namespace.
\<close>

datatype effect = ConfigRead string string | ConfigSubscribe string string

text \<open>\<open>strings.HasPrefix\<close>, and \<open>strings.Split\<close> with a separator of one character.\<close>

definition HasPrefix :: "string \<Rightarrow> string \<Rightarrow> bool" where
  "HasPrefix s p = (take (length p) s = p)"

fun Split :: "string \<Rightarrow> char \<Rightarrow> string list" where
  "Split [] sep = [[]]"
| "Split (c # cs) sep =
     (if c = sep then [] # Split cs sep
      else case Split cs sep of
             [] \<Rightarrow> [[c]]
           | t # ts \<Rightarrow> (c # t) # ts)"

subsection \<open>The gateway watches\<close>

text \<open>
  The block "add a watch for gatewayUrl" is the same text in both sources. It looks for a
  watch with the namespace as its id; if there is none it reads \<open>gatewayUrl\<close> once, appends
  a watch with the value read and subscribes to the key.
\<close>

definition watcherNamespace :: "'v collaborators \<Rightarrow> DiscoverOptions \<Rightarrow> 'v \<Rightarrow> string" where
  "watcherNamespace E opts v =
     ''/environments/'' @ Environment opts @ ''/services/'' @ Value' opts @ ''/''
       @ Version_String E v"

definition add_watch ::
  "'v collaborators \<Rightarrow> string \<Rightarrow> gatewayURLWatch list \<times> effect list \<Rightarrow>
   gatewayURLWatch list \<times> effect list" where
  "add_watch E ns st =
     (case st of (gws, effs) \<Rightarrow>
        let hasWatch = list_ex (\<lambda>w. gatewayID w = ns) gws
        in if \<not> hasWatch then
             let g = fst (GetString E ns ''gatewayUrl'')
             in (gws @ [\<lparr>gatewayID = ns, gatewayURL = g\<rparr>],
                 effs @ [ConfigRead ns ''gatewayUrl'', ConfigSubscribe ns ''gatewayUrl''])
           else (gws, effs))"

text \<open>
  The subscription's callback, run by the configuration subsystem when the key changes:
  it overwrites the URL of the first watch with the namespace.
\<close>

fun gatewayUrl_changed :: "string \<Rightarrow> string \<Rightarrow> gatewayURLWatch list \<Rightarrow> gatewayURLWatch list" where
  "gatewayUrl_changed ns v [] = []"
| "gatewayUrl_changed ns v (w # ws) =
     (if gatewayID w = ns then w\<lparr>gatewayURL := v\<rparr> # ws
      else w # gatewayUrl_changed ns v ws)"

subsection \<open>Consul: from service entries to instances\<close>

text \<open>
  The loop over the tags of one entry carries \<open>discoveredInstance.version\<close>, \<open>versionOk\<close>
  and \<open>protocol\<close>. A tag that starts with \<open>version\<close> is split at \<open>=\<close> and its second
  part parsed; with no second part the index is out of range. A parse error clears
  \<open>versionOk\<close> and leaves the loop.
\<close>

fun consul_scan_tags ::
  "'v collaborators \<Rightarrow> string list \<Rightarrow> 'v \<times> bool \<times> string \<Rightarrow> panic + ('v \<times> bool \<times> string)" where
  "consul_scan_tags E [] st = Inr st"
| "consul_scan_tags E (tag # tags) (ver, versionOk, proto) =
     (if HasPrefix tag ''version'' then
        (case Split tag CHR ''='' of
           t0 # t1 # ts \<Rightarrow>
             (case ParseTolerant E t1 of
                Inl err \<Rightarrow> Inr (ver, False, proto)
              | Inr v \<Rightarrow> consul_scan_tags E tags (v, True, proto))
         | _ \<Rightarrow> Inl IndexOutOfRange)
      else if tag = ''https'' then consul_scan_tags E tags (ver, versionOk, ''https'')
      else consul_scan_tags E tags (ver, versionOk, proto))"

text \<open>
  The loop over the entries carries \<open>discoveredInstances\<close>, \<open>d.gatewayURLs\<close> and what was
  done to the configuration. A panic leaves the loop with the state as it is then.
\<close>

type_synonym 'v discovering = "'v discoveredService list \<times> gatewayURLWatch list \<times> effect list"

fun consul_entries ::
  "'v collaborators \<Rightarrow> DiscoverOptions \<Rightarrow> ServiceEntry list \<Rightarrow> 'v discovering \<Rightarrow>
   panic option \<times> 'v discovering" where
  "consul_entries E opts [] st = (None, st)"
| "consul_entries E opts (serviceEntry # rest) (dis, gws, effs) =
     (case consul_scan_tags E (Service_Tags serviceEntry) (Version_zero E, False, ''http'') of
        Inl p \<Rightarrow> (Some p, (dis, gws, effs))
      | Inr (ver, versionOk, proto) \<Rightarrow>
          if \<not> versionOk then consul_entries E opts rest (dis, gws, effs)
          else
            let addr = (if Service_Address serviceEntry \<noteq> [] then Service_Address serviceEntry
                        else Node_Address serviceEntry);
                discoveredInstance =
                  \<lparr>service_id = Service_ID serviceEntry, version = ver,
                   directURL = proto @ ''://'' @ addr @ '':''
                     @ FormatInt (Service_Port serviceEntry)\<rparr>
            in case add_watch E (watcherNamespace E opts ver) (gws, effs) of
                 (gws1, effs1) \<Rightarrow>
                   consul_entries E opts rest (dis @ [discoveredInstance], gws1, effs1))"

subsection \<open>etcd: from the key tree to instances\<close>

text \<open>
  Under the service's node there is one node per version; the loop looks for its child
  \<open>instances\<close> and walks that child's nodes. Without such a child \<open>instances\<close> is \<open>nil\<close>
  and reading \<open>instances.Nodes\<close> panics. The version is parsed anew for every instance; a
  parse error leaves the loop over the instances of this version.
\<close>

fun etcd_url :: "Node list \<Rightarrow> string \<Rightarrow> string" where
  "etcd_url [] u = u"
| "etcd_url (node # nodes) u =
     etcd_url nodes (if Base (Key node) = ''url'' then Value node else u)"

fun etcd_instances ::
  "'v collaborators \<Rightarrow> DiscoverOptions \<Rightarrow> string \<Rightarrow> Node list \<Rightarrow> 'v discovering \<Rightarrow>
   'v discovering" where
  "etcd_instances E opts currentVersion [] st = st"
| "etcd_instances E opts currentVersion (inst # rest) (dis, gws, effs) =
     (case ParseTolerant E currentVersion of
        Inl err \<Rightarrow> (dis, gws, effs)
      | Inr ver \<Rightarrow>
          let discoveredInstance =
                \<lparr>service_id = Base (Key inst), version = ver,
                 directURL = etcd_url (Nodes inst) []\<rparr>
          in case add_watch E (watcherNamespace E opts ver) (gws, effs) of
               (gws1, effs1) \<Rightarrow>
                 etcd_instances E opts currentVersion rest
                   (dis @ [discoveredInstance], gws1, effs1))"

fun etcd_versions ::
  "'v collaborators \<Rightarrow> DiscoverOptions \<Rightarrow> Node list \<Rightarrow> 'v discovering \<Rightarrow>
   panic option \<times> 'v discovering" where
  "etcd_versions E opts [] st = (None, st)"
| "etcd_versions E opts (nodeVersion # rest) st =
     (case find (\<lambda>n. Base (Key n) = ''instances'') (Nodes nodeVersion) of
        None \<Rightarrow> (Some NilPointerDereference, st)
      | Some instances \<Rightarrow>
          etcd_versions E opts rest
            (etcd_instances E opts (Base (Key nodeVersion)) (Nodes instances) st))"

subsection \<open>DiscoverService\<close>

text \<open>
  The end of \<open>DiscoverService\<close>, the same text in both sources: pick an instance; on an
  error, answer with \<open>d.lastKnownService\<close> and no error if the picked string is not empty,
  with the error otherwise; on success remember the answer in \<open>d.lastKnownService\<close>.
  The result of \<open>DiscoverService\<close> is what the call returns (or its panic), the source
  after the call and what the call did to the configuration.
\<close>

type_synonym 'd discovered = "(panic + (string \<times> error option)) \<times> 'd \<times> effect list"

definition pick_and_return ::
  "'v collaborators \<Rightarrow> ('i, 'z) discoverySource_scheme \<Rightarrow> DiscoverOptions \<Rightarrow>
   'v discoveredService list \<Rightarrow> effect list \<Rightarrow> ('i, 'z) discoverySource_scheme discovered" where
  "pick_and_return E d opts discoveredInstances effs =
     (case pickRandomServiceInstance E discoveredInstances (gatewayURLs d) opts
             (lastKnownService d) of
        (service, Some err) \<Rightarrow>
          if service \<noteq> [] then (Inr (lastKnownService d, None), d, effs)
          else (Inr ([], Some err), d, effs)
      | (service, None) \<Rightarrow> (Inr (service, None), d\<lparr>lastKnownService := service\<rparr>, effs))"

definition query_failed ::
  "('i, 'z) discoverySource_scheme \<Rightarrow> error \<Rightarrow> ('i, 'z) discoverySource_scheme discovered" where
  "query_failed d err =
     (if lastKnownService d \<noteq> [] then (Inr (lastKnownService d, None), d, [])
      else (Inr ([], Some err), d, []))"

definition consul_DiscoverService ::
  "'v collaborators \<Rightarrow> consulClient \<Rightarrow> consulDiscoverySource \<Rightarrow> DiscoverOptions \<Rightarrow>
   consulDiscoverySource discovered" where
  "consul_DiscoverService E client d options0 =
     (let opts = fillDefaultDiscoverOptions E options0;
          queryServiceName = Environment opts @ ''-'' @ Value' opts
      in case Health_Service client queryServiceName [] True of
           Inl err \<Rightarrow> query_failed d err
         | Inr serviceEntries \<Rightarrow>
             (case consul_entries E opts serviceEntries ([], gatewayURLs d, []) of
                (Some p, (dis, gws, effs)) \<Rightarrow> (Inl p, d\<lparr>gatewayURLs := gws\<rparr>, effs)
              | (None, (dis, gws, effs)) \<Rightarrow>
                  pick_and_return E (d\<lparr>gatewayURLs := gws\<rparr>) opts dis effs))"

definition etcd_DiscoverService ::
  "'v collaborators \<Rightarrow> etcdClient \<Rightarrow> etcdDiscoverySource \<Rightarrow> DiscoverOptions \<Rightarrow>
   etcdDiscoverySource discovered" where
  "etcd_DiscoverService E client d options0 =
     (let opts = fillDefaultDiscoverOptions E options0;
          kvPath = ''environments/'' @ Environment opts @ ''/services/'' @ Value' opts @ ''/''
      in case Get_Recursive client kvPath of
           Inl err \<Rightarrow> query_failed d err
         | Inr resp_Node \<Rightarrow>
             (case etcd_versions E opts (Nodes resp_Node) ([], gatewayURLs d, []) of
                (Some p, (dis, gws, effs)) \<Rightarrow> (Inl p, d\<lparr>gatewayURLs := gws\<rparr>, effs)
              | (None, (dis, gws, effs)) \<Rightarrow>
                  pick_and_return E (d\<lparr>gatewayURLs := gws\<rparr>) opts dis effs))"

subsection \<open>The two helpers defined elsewhere in the package\<close>

text \<open>
  Modelled from the spec: \<open>fillDefaultDiscoverOptions\<close>, which is called by both
  \<open>DiscoverService\<close> methods and defined elsewhere in the package. The specification
  (4.5, step 1): the environment, if empty, takes the process's configured environment name
  or \<open>dev\<close>; the version selector, if empty, is \<open>*\<close>; the access type, if empty, is
  \<open>GATEWAY\<close>.
\<close>

definition spec_fillDefaultDiscoverOptions :: "string option \<Rightarrow> DiscoverOptions \<Rightarrow> DiscoverOptions" where
  "spec_fillDefaultDiscoverOptions configuredEnv opts =
     opts\<lparr>Environment :=
            (if Environment opts = [] then (case configuredEnv of Some e \<Rightarrow> e | None \<Rightarrow> ''dev'')
             else Environment opts),
          Version' := (if Version' opts = [] then ''*'' else Version' opts),
          AccessType := (if AccessType opts = [] then ''GATEWAY'' else AccessType opts)\<rparr>"

text \<open>
  Modelled from the spec: \<open>pickRandomServiceInstance\<close>, which is called by both
  \<open>DiscoverService\<close> methods and defined elsewhere in the package. The specification
  (4.5, steps 5, 6 and 8): resolve the selector against the parsed versions; if no version
  satisfies it, this is a selection failure that falls back like a failed query, so the
  last known service is handed back with the error; among the instances of the resolved
  version choose one at random; with access type \<open>GATEWAY\<close> and a non-empty cached gateway
  URL for the instance's namespace return that URL, otherwise the instance's direct URL.
  The version resolver of 4.1 and the random number are arguments.
\<close>

definition spec_pickRandomServiceInstance ::
  "(string \<Rightarrow> 'v list \<Rightarrow> 'v option) \<Rightarrow> nat \<Rightarrow> ('v \<Rightarrow> string) \<Rightarrow>
   'v discoveredService list \<Rightarrow> gatewayURLWatch list \<Rightarrow> DiscoverOptions \<Rightarrow> string \<Rightarrow>
   string \<times> error option" where
  "spec_pickRandomServiceInstance resolve rnd vstr discoveredInstances gws opts lastKnown =
     (case resolve (Version' opts) (map version discoveredInstances) of
        None \<Rightarrow> (lastKnown, Some (Error ''no version satisfies the selector''))
      | Some v \<Rightarrow>
          (case filter (\<lambda>i. version i = v) discoveredInstances of
             [] \<Rightarrow> (lastKnown, Some (Error ''no version satisfies the selector''))
           | c # cs \<Rightarrow>
               let inst = (c # cs) ! (rnd mod length (c # cs));
                   ns = ''/environments/'' @ Environment opts @ ''/services/'' @ Value' opts
                          @ ''/'' @ vstr (version inst);
                   gw = (case find (\<lambda>w. gatewayID w = ns) gws of
                           None \<Rightarrow> [] | Some w \<Rightarrow> gatewayURL w)
               in if AccessType opts = ''GATEWAY'' \<and> gw \<noteq> [] then (gw, None)
                  else (directURL inst, None)))"

subsection \<open>How the watches may change\<close>

text \<open>What creating the watches \<open>ws\<close> does to the configuration, in order.\<close>

definition watch_effects :: "gatewayURLWatch list \<Rightarrow> effect list" where
  "watch_effects ws =
     concat (map (\<lambda>w. [ConfigRead (gatewayID w) ''gatewayUrl'',
                         ConfigSubscribe (gatewayID w) ''gatewayUrl'']) ws)"

text \<open>
  How the watches and the effects of a call can differ from those before it: watches are
  appended, never removed or changed; each appended watch holds the value read for its
  namespace and accounts for one read and one subscription; ids stay distinct.
\<close>

definition grown ::
  "'v collaborators \<Rightarrow> gatewayURLWatch list \<times> effect list \<Rightarrow>
   gatewayURLWatch list \<times> effect list \<Rightarrow> bool" where
  "grown E old new =
     (\<exists>added. fst new = fst old @ added \<and> snd new = snd old @ watch_effects added
        \<and> (\<forall>w \<in> set added. gatewayURL w = fst (GetString E (gatewayID w) ''gatewayUrl''))
        \<and> (distinct (map gatewayID (fst old)) \<longrightarrow> distinct (map gatewayID (fst new))))"

section \<open>Examples\<close>

subsection \<open>Configurations and backends for registration\<close>

definition example_regconf :: "RegisterOptions \<Rightarrow> registerConfiguration" where
  "example_regconf opts =
     \<lparr>Name = ''svc'', Env_Name = ''dev'', Version = ''1.0.0'', Server_HTTP_Port = 8080,
      Server_HTTP_Address = [], Server_BaseURL = ''http://10.0.0.5:8080'',
      Discovery_TTL = 30, Discovery_PingInterval = 20\<rparr>"

definition singleton_yes :: RegisterOptions where
  "singleton_yes = \<lparr>Singleton = True\<rparr>"

text \<open>A Consul agent that accepts every call and knows no services.\<close>

definition consul_accepting :: consulClient where
  "consul_accepting =
     \<lparr>ServiceRegister = (\<lambda>r. None), UpdateTTL = (\<lambda>c s. None),
      ServiceDeregister = (\<lambda>i. None), Health_Service = (\<lambda>n t p. Inr [])\<rparr>"

text \<open>A Consul agent on which the TTL check of the instance no longer exists.\<close>

definition consul_check_gone :: consulClient where
  "consul_check_gone =
     \<lparr>ServiceRegister = (\<lambda>r. None), UpdateTTL = (\<lambda>c s. Some (Error ''unknown check'')),
      ServiceDeregister = (\<lambda>i. None), Health_Service = (\<lambda>n t p. Inr [])\<rparr>"

text \<open>An agent that cannot be reached.\<close>

definition consul_unreachable :: consulClient where
  "consul_unreachable =
     \<lparr>ServiceRegister = (\<lambda>r. Some (Error ''connection refused'')),
      UpdateTTL = (\<lambda>c s. Some (Error ''connection refused'')),
      ServiceDeregister = (\<lambda>i. Some (Error ''connection refused'')),
      Health_Service = (\<lambda>n t p. Inl (Error ''connection refused''))\<rparr>"

text \<open>An etcd store that accepts every write and holds no instances.\<close>

definition etcd_accepting :: etcdClient where
  "etcd_accepting =
     \<lparr>Set_Dir = (\<lambda>k t. None), Set_Value = (\<lambda>k v. None), Refresh_Dir = (\<lambda>k t. None),
      Delete_Dir = (\<lambda>k. None), Get_Recursive = (\<lambda>k. Inr (Node k [] []))\<rparr>"

definition etcd_unreachable :: etcdClient where
  "etcd_unreachable =
     \<lparr>Set_Dir = (\<lambda>k t. Some (Error ''connection refused'')),
      Set_Value = (\<lambda>k v. Some (Error ''connection refused'')),
      Refresh_Dir = (\<lambda>k t. Some (Error ''connection refused'')),
      Delete_Dir = (\<lambda>k. Some (Error ''connection refused'')),
      Get_Recursive = (\<lambda>k. Inl (Error ''connection refused''))\<rparr>"

text \<open>
  A Consul agent on which one healthy instance of \<open>svc\<close> in \<open>dev\<close>, version \<open>1.0.0\<close>,
  is registered: the service's name is \<open>dev-svc\<close>, the health endpoint answers by
  service name, and no other service is known.
\<close>

definition healthy_svc_entry :: ServiceEntry where
  "healthy_svc_entry =
     \<lparr>Node_Address = ''10.0.0.5'', Service_ID = ''svc-first'',
      Service_Tags = [''http'', ''version=1.0.0''], Service_Address = [],
      Service_Port = 8080\<rparr>"

definition consul_one_healthy :: consulClient where
  "consul_one_healthy =
     \<lparr>ServiceRegister = (\<lambda>r. None), UpdateTTL = (\<lambda>c s. None),
      ServiceDeregister = (\<lambda>i. None),
      Health_Service = (\<lambda>n t p. if n = ''dev-svc'' then Inr [healthy_svc_entry] else Inr [])\<rparr>"

text \<open>An etcd store that holds one active instance of \<open>svc\<close> in \<open>dev\<close>, version \<open>1.0.0\<close>.\<close>

definition etcd_one_active :: etcdClient where
  "etcd_one_active =
     \<lparr>Set_Dir = (\<lambda>k t. None), Set_Value = (\<lambda>k v. None), Refresh_Dir = (\<lambda>k t. None),
      Delete_Dir = (\<lambda>k. None),
      Get_Recursive = (\<lambda>k.
        if k = ''/environments/dev/services/svc/1.0.0/instances/'' then
          Inr (Node ''/environments/dev/services/svc/1.0.0/instances'' []
                 [Node ''/environments/dev/services/svc/1.0.0/instances/first'' []
                    [Node ''/environments/dev/services/svc/1.0.0/instances/first/url''
                       ''http://10.0.0.5:8080'' []]])
        else Inr (Node k [] []))\<rparr>"

definition singleton_no :: RegisterOptions where
  "singleton_no = \<lparr>Singleton = False\<rparr>"

text \<open>The sources right after \<open>RegisterService\<close>, for the examples.\<close>

definition consul_fresh :: "int64 \<Rightarrow> int64 \<Rightarrow> RegisterOptions \<Rightarrow> consulDiscoverySource" where
  "consul_fresh startRD maxRD opts =
     fst (snd (consul_RegisterService example_regconf ''uuid'' opts
                 (newConsulDiscoverySource startRD maxRD None)))"

definition etcd_fresh :: "int64 \<Rightarrow> int64 \<Rightarrow> RegisterOptions \<Rightarrow> etcdDiscoverySource" where
  "etcd_fresh startRD maxRD opts =
     fst (snd (etcd_RegisterService example_regconf ''uuid'' opts
                 (newEtcdDiscoverySource startRD maxRD)))"

definition consul_fresh_instance :: "RegisterOptions \<Rightarrow> consulServiceInstance" where
  "consul_fresh_instance opts =
     \<lparr>isRegistered = False, id' = ''svc-uuid'', singleton = Singleton opts,
      name = ''dev-svc'', versionTag = ''version=1.0.0''\<rparr>"

definition etcd_fresh_instance :: "RegisterOptions \<Rightarrow> etcdServiceInstance" where
  "etcd_fresh_instance opts =
     \<lparr>isRegistered = False, id' = ''uuid'', singleton = Singleton opts,
      etcdKeyDir = ''/environments/dev/services/svc/1.0.0/instances/uuid'',
      serviceURL = []\<rparr>"

subsection \<open>Collaborators and backends for discovery\<close>

text \<open>
  A small stand-in for the \<open>semver\<close> package: versions are triples, four version strings
  parse, \<open>*\<close> resolves to the greatest version and any other selector to the version it
  names.
\<close>

type_synonym triple = "nat \<times> nat \<times> nat"

definition example_parse :: "string \<Rightarrow> error + triple" where
  "example_parse s =
     (if s = ''1.0.0'' then Inr (1, 0, 0)
      else if s = ''1.0.4'' then Inr (1, 0, 4)
      else if s = ''1.2.0'' then Inr (1, 2, 0)
      else if s = ''2.0.0'' then Inr (2, 0, 0)
      else Inl (Error ''Invalid character(s) found in major number''))"

definition example_string :: "triple \<Rightarrow> string" where
  "example_string v =
     (if v = (1, 0, 0) then ''1.0.0''
      else if v = (1, 0, 4) then ''1.0.4''
      else if v = (1, 2, 0) then ''1.2.0''
      else if v = (2, 0, 0) then ''2.0.0''
      else ''0.0.0'')"

fun triple_le :: "triple \<Rightarrow> triple \<Rightarrow> bool" where
  "triple_le (a, b, c) (x, y, z) = (a < x \<or> (a = x \<and> (b < y \<or> (b = y \<and> c \<le> z))))"

fun greatest :: "triple list \<Rightarrow> triple option" where
  "greatest [] = None"
| "greatest (v # vs) =
     (case greatest vs of None \<Rightarrow> Some v | Some w \<Rightarrow> if triple_le v w then Some w else Some v)"

definition example_resolve :: "string \<Rightarrow> triple list \<Rightarrow> triple option" where
  "example_resolve sel vs =
     (if sel = ''*'' then greatest vs
      else case example_parse sel of
             Inl err \<Rightarrow> None
           | Inr v \<Rightarrow> if v \<in> set vs then Some v else None)"

definition example_config :: "string \<Rightarrow> string \<Rightarrow> string \<times> bool" where
  "example_config ns k =
     (if ns = ''/environments/dev/services/shop/1.0.0'' \<and> k = ''gatewayUrl''
      then (''http://gw.example.com'', True) else ([], False))"

definition example_E :: "triple collaborators" where
  "example_E =
     \<lparr>ParseTolerant = example_parse, Version_String = example_string,
      Version_zero = (0, 0, 0), GetString = example_config,
      fillDefaultDiscoverOptions = spec_fillDefaultDiscoverOptions None,
      pickRandomServiceInstance = spec_pickRandomServiceInstance example_resolve 0 example_string\<rparr>"

text \<open>An etcd store that holds one instance of \<open>svc\<close> in \<open>dev\<close>, version \<open>1.0.0\<close>.\<close>

definition etcd_svc_tree :: Node where
  "etcd_svc_tree =
     Node ''/environments/dev/services/svc'' []
       [Node ''/environments/dev/services/svc/1.0.0'' []
          [Node ''/environments/dev/services/svc/1.0.0/instances'' []
             [Node ''/environments/dev/services/svc/1.0.0/instances/first'' []
                [Node ''/environments/dev/services/svc/1.0.0/instances/first/url''
                   ''http://10.0.0.5:8080'' []]]]]"

definition etcd_with_svc :: etcdClient where
  "etcd_with_svc =
     \<lparr>Set_Dir = (\<lambda>k t. None), Set_Value = (\<lambda>k v. None), Refresh_Dir = (\<lambda>k t. None),
      Delete_Dir = (\<lambda>k. None),
      Get_Recursive = (\<lambda>k. if k = ''environments/dev/services/svc/'' then Inr etcd_svc_tree
                            else Inl (Error ''Key not found''))\<rparr>"

definition discover_svc :: DiscoverOptions where
  "discover_svc = \<lparr>Value' = ''svc'', Environment = ''dev'', Version' = ''*'', AccessType = ''DIRECT''\<rparr>"

definition discover_other :: DiscoverOptions where
  "discover_other = \<lparr>Value' = ''other'', Environment = [], Version' = [], AccessType = []\<rparr>"

text \<open>
  An etcd store that holds one instance of \<open>svc\<close> whose \<open>url\<close> is empty, as etcd's
  \<open>register\<close> writes it when the configuration has no base URL.
\<close>

definition etcd_empty_url_tree :: Node where
  "etcd_empty_url_tree =
     Node ''/environments/dev/services/svc'' []
       [Node ''/environments/dev/services/svc/1.0.0'' []
          [Node ''/environments/dev/services/svc/1.0.0/instances'' []
             [Node ''/environments/dev/services/svc/1.0.0/instances/first'' []
                [Node ''/environments/dev/services/svc/1.0.0/instances/first/url'' [] []]]]]"

definition etcd_with_empty_url :: etcdClient where
  "etcd_with_empty_url =
     \<lparr>Set_Dir = (\<lambda>k t. None), Set_Value = (\<lambda>k v. None), Refresh_Dir = (\<lambda>k t. None),
      Delete_Dir = (\<lambda>k. None),
      Get_Recursive = (\<lambda>k. if k = ''environments/dev/services/svc/''
                            then Inr etcd_empty_url_tree
                            else Inl (Error ''Key not found''))\<rparr>"

definition etcd_after_empty_url :: etcdDiscoverySource where
  "etcd_after_empty_url =
     fst (snd (etcd_DiscoverService example_E etcd_with_empty_url
                 (newEtcdDiscoverySource 500 900000) discover_svc))"

text \<open>
  A Consul agent on which two healthy instances of \<open>svc\<close> in \<open>dev\<close> are registered, one
  of version \<open>1.0.0\<close> and one of version \<open>2.0.0\<close>.
\<close>

definition v2_svc_entry :: ServiceEntry where
  "v2_svc_entry =
     \<lparr>Node_Address = ''10.0.0.7'', Service_ID = ''svc-third'',
      Service_Tags = [''https'', ''version=2.0.0''], Service_Address = [],
      Service_Port = 8443\<rparr>"

definition consul_two_versions :: consulClient where
  "consul_two_versions =
     \<lparr>ServiceRegister = (\<lambda>r. None), UpdateTTL = (\<lambda>c s. None),
      ServiceDeregister = (\<lambda>i. None),
      Health_Service = (\<lambda>n t p. if n = ''dev-svc'' then Inr [healthy_svc_entry, v2_svc_entry]
                                  else Inr [])\<rparr>"

definition consul_after_two_versions :: consulDiscoverySource where
  "consul_after_two_versions =
     fst (snd (consul_DiscoverService example_E consul_two_versions
                 (newConsulDiscoverySource 500 900000 None) discover_svc))"

text \<open>The sources after one successful discovery of \<open>svc\<close>, for the examples.\<close>

definition consul_after_svc :: consulDiscoverySource where
  "consul_after_svc =
     fst (snd (consul_DiscoverService example_E consul_one_healthy
                 (newConsulDiscoverySource 500 900000 None) discover_svc))"

definition etcd_after_svc :: etcdDiscoverySource where
  "etcd_after_svc =
     fst (snd (etcd_DiscoverService example_E etcd_with_svc
                 (newEtcdDiscoverySource 500 900000) discover_svc))"

text \<open>
  Backends that hold, beside the instance of \<open>svc\<close> above, a record whose version does
  not parse: a Consul service tagged \<open>version=1.0.0\<close> and then \<open>version=abc\<close>, an etcd
  version node \<open>latest\<close>.
\<close>

definition bad_version_entry :: ServiceEntry where
  "bad_version_entry =
     \<lparr>Node_Address = ''10.0.0.6'', Service_ID = ''svc-second'',
      Service_Tags = [''https'', ''version=1.0.0'', ''version=abc''], Service_Address = [],
      Service_Port = 8443\<rparr>"

definition consul_with_bad_version :: consulClient where
  "consul_with_bad_version =
     \<lparr>ServiceRegister = (\<lambda>r. None), UpdateTTL = (\<lambda>c s. None),
      ServiceDeregister = (\<lambda>i. None),
      Health_Service = (\<lambda>n t p. if n = ''dev-svc''
                                  then Inr ([healthy_svc_entry] @ bad_version_entry # [])
                                  else Inr [])\<rparr>"

definition bad_version_node :: Node where
  "bad_version_node =
     Node ''/environments/dev/services/svc/latest'' []
       [Node ''/environments/dev/services/svc/latest/instances'' []
          [Node ''/environments/dev/services/svc/latest/instances/second'' []
             [Node ''/environments/dev/services/svc/latest/instances/second/url''
                ''http://10.0.0.6:8443'' []]]]"

definition etcd_with_bad_version :: etcdClient where
  "etcd_with_bad_version =
     \<lparr>Set_Dir = (\<lambda>k t. None), Set_Value = (\<lambda>k v. None), Refresh_Dir = (\<lambda>k t. None),
      Delete_Dir = (\<lambda>k. None),
      Get_Recursive = (\<lambda>k. if k = ''environments/dev/services/svc/''
                            then Inr (Node ''/environments/dev/services/svc'' []
                                        (Nodes etcd_svc_tree @ bad_version_node # []))
                            else Inl (Error ''Key not found''))\<rparr>"

text \<open>
  Backends that hold, beside the instance of \<open>svc\<close> above, a record whose version cannot
  even be handed to the parser: a Consul service tagged \<open>version-abc\<close>, with no \<open>=\<close>,
  and an etcd version node \<open>latest\<close> that has a \<open>gatewayUrl\<close> key and no \<open>instances\<close>
  directory.
\<close>

definition no_equals_entry :: ServiceEntry where
  "no_equals_entry =
     \<lparr>Node_Address = ''10.0.0.8'', Service_ID = ''svc-fourth'',
      Service_Tags = [''version-abc''], Service_Address = [], Service_Port = 8080\<rparr>"

definition consul_with_no_equals_tag :: consulClient where
  "consul_with_no_equals_tag =
     \<lparr>ServiceRegister = (\<lambda>r. None), UpdateTTL = (\<lambda>c s. None),
      ServiceDeregister = (\<lambda>i. None),
      Health_Service = (\<lambda>n t p. if n = ''dev-svc'' then Inr [healthy_svc_entry, no_equals_entry]
                                  else Inr [])\<rparr>"

definition no_instances_node :: Node where
  "no_instances_node =
     Node ''/environments/dev/services/svc/latest'' []
       [Node ''/environments/dev/services/svc/latest/gatewayUrl'' ''http://gw.example.com'' []]"

definition etcd_with_no_instances :: etcdClient where
  "etcd_with_no_instances =
     \<lparr>Set_Dir = (\<lambda>k t. None), Set_Value = (\<lambda>k v. None), Refresh_Dir = (\<lambda>k t. None),
      Delete_Dir = (\<lambda>k. None),
      Get_Recursive = (\<lambda>k. if k = ''environments/dev/services/svc/''
                            then Inr (Node ''/environments/dev/services/svc'' []
                                        (Nodes etcd_svc_tree @ [no_instances_node]))
                            else Inl (Error ''Key not found''))\<rparr>"

definition discover_svc_2 :: DiscoverOptions where
  "discover_svc_2 =
     \<lparr>Value' = ''svc'', Environment = ''dev'', Version' = ''2.0.0'', AccessType = ''DIRECT''\<rparr>"

section \<open>Verified properties\<close>

subsection \<open>Deregistering a source that never registered\<close>

text \<open>
  C10. \<open>DeregisterService\<close> on a source whose \<open>serviceInstance\<close> is still \<open>nil\<close> (as it is
  from construction until \<open>RegisterService\<close> assigns it) panics with a nil pointer
  dereference, for the Consul source and for the etcd source, whatever the backend would
  answer.
\<close>

theorem DeregisterService_before_RegisterService_panics:
  assumes "serviceInstance dc = None" and "serviceInstance de = None"
  shows "consul_DeregisterService cc dc = Inl NilPointerDereference
       \<and> etcd_DeregisterService ec de = Inl NilPointerDereference"
  using assms by (simp add: consul_DeregisterService_def etcd_DeregisterService_def)

theorem DeregisterService_before_RegisterService_panics_witness:
  "serviceInstance (newConsulDiscoverySource 500 900000 None) = None
   \<and> serviceInstance (newEtcdDiscoverySource 500 900000) = None
   \<and> consul_DeregisterService consul_accepting (newConsulDiscoverySource 500 900000 None)
       = Inl NilPointerDereference
   \<and> etcd_DeregisterService etcd_accepting (newEtcdDiscoverySource 500 900000)
       = Inl NilPointerDereference"
proof -
  have c: "serviceInstance (newConsulDiscoverySource 500 900000 None) = None"
    by (simp add: newConsulDiscoverySource_def)
  have e: "serviceInstance (newEtcdDiscoverySource 500 900000) = None"
    by (simp add: newEtcdDiscoverySource_def)
  from DeregisterService_before_RegisterService_panics [OF c e, of consul_accepting etcd_accepting]
  show ?thesis using c e by simp
qed

subsection \<open>Steps of the background loop\<close>

text \<open>
  Once \<open>RegisterService\<close> has set the instance and the options, a step of the loop cannot
  panic; it makes exactly one attempt and leaves both pointers set.
\<close>

lemma consul_run_total:
  assumes "serviceInstance d = Some inst" and "options d = Some opts"
  shows "\<exists>d1 rd1 evs. consul_run c d rd = Inr (d1, rd1, evs)
           \<and> serviceInstance d1 \<noteq> None \<and> options d1 = options d
           \<and> length (filter is_attempt evs) = 1 \<and> filter is_deregistered evs = []"
  using assms by (auto simp: consul_run_def Let_def)

lemma etcd_run_total:
  assumes "serviceInstance d = Some inst" and "options d = Some opts"
  shows "\<exists>d1 rd1 evs. etcd_run c d rd = Inr (d1, rd1, evs)
           \<and> serviceInstance d1 \<noteq> None \<and> options d1 = options d
           \<and> length (filter is_attempt evs) = 1 \<and> filter is_deregistered evs = []"
  using assms by (auto simp: etcd_run_def Let_def split: prod.splits)

lemma consul_exec_total:
  assumes "serviceInstance d \<noteq> None" and "options d \<noteq> None"
  shows "\<exists>s tr. consul_exec sched (d, rd) = Inr (s, tr)
           \<and> length (filter is_attempt tr) = length (filter is_iterate sched)
           \<and> consul_exec (filter is_iterate sched) (d, rd)
               = Inr (s, filter (\<lambda>e. \<not> is_deregistered e) tr)"
  using assms
proof (induction sched arbitrary: d rd)
  case Nil
  then show ?case by simp
next
  case (Cons a sched)
  from Cons.prems obtain inst opts where io: "serviceInstance d = Some inst" "options d = Some opts"
    by auto
  show ?case
  proof (cases a)
    case (Iterate c)
    from consul_run_total [OF io, of c rd] obtain d1 rd1 evs where
      r: "consul_run c d rd = Inr (d1, rd1, evs)" "serviceInstance d1 \<noteq> None"
         "options d1 = options d" "length (filter is_attempt evs) = 1"
         "filter is_deregistered evs = []"
      by blast
    from r(3) io have "options d1 \<noteq> None" by simp
    from Cons.IH [OF r(2) this, of rd1] obtain s tr where
      e: "consul_exec sched (d1, rd1) = Inr (s, tr)"
         "length (filter is_attempt tr) = length (filter is_iterate sched)"
         "consul_exec (filter is_iterate sched) (d1, rd1)
               = Inr (s, filter (\<lambda>e. \<not> is_deregistered e) tr)"
      by blast
    from r(5) have "filter (\<lambda>e. \<not> is_deregistered e) evs = evs"
      by (simp add: filter_empty_conv)
    with Iterate r e show ?thesis by simp
  next
    case (CallDeregister c)
    from Cons.IH [OF Cons.prems, of rd] obtain s tr where
      e: "consul_exec sched (d, rd) = Inr (s, tr)"
         "length (filter is_attempt tr) = length (filter is_iterate sched)"
         "consul_exec (filter is_iterate sched) (d, rd)
               = Inr (s, filter (\<lambda>e. \<not> is_deregistered e) tr)"
      by blast
    with CallDeregister io show ?thesis by (simp add: consul_DeregisterService_def)
  qed
qed

lemma etcd_exec_total:
  assumes "serviceInstance d \<noteq> None" and "options d \<noteq> None"
  shows "\<exists>s tr. etcd_exec sched (d, rd) = Inr (s, tr)
           \<and> length (filter is_attempt tr) = length (filter is_iterate sched)
           \<and> etcd_exec (filter is_iterate sched) (d, rd)
               = Inr (s, filter (\<lambda>e. \<not> is_deregistered e) tr)"
  using assms
proof (induction sched arbitrary: d rd)
  case Nil
  then show ?case by simp
next
  case (Cons a sched)
  from Cons.prems obtain inst opts where io: "serviceInstance d = Some inst" "options d = Some opts"
    by auto
  show ?case
  proof (cases a)
    case (Iterate c)
    from etcd_run_total [OF io, of c rd] obtain d1 rd1 evs where
      r: "etcd_run c d rd = Inr (d1, rd1, evs)" "serviceInstance d1 \<noteq> None"
         "options d1 = options d" "length (filter is_attempt evs) = 1"
         "filter is_deregistered evs = []"
      by blast
    from r(3) io have "options d1 \<noteq> None" by simp
    from Cons.IH [OF r(2) this, of rd1] obtain s tr where
      e: "etcd_exec sched (d1, rd1) = Inr (s, tr)"
         "length (filter is_attempt tr) = length (filter is_iterate sched)"
         "etcd_exec (filter is_iterate sched) (d1, rd1)
               = Inr (s, filter (\<lambda>e. \<not> is_deregistered e) tr)"
      by blast
    from r(5) have "filter (\<lambda>e. \<not> is_deregistered e) evs = evs"
      by (simp add: filter_empty_conv)
    with Iterate r e show ?thesis by simp
  next
    case (CallDeregister c)
    from Cons.IH [OF Cons.prems, of rd] obtain s tr where
      e: "etcd_exec sched (d, rd) = Inr (s, tr)"
         "length (filter is_attempt tr) = length (filter is_iterate sched)"
         "etcd_exec (filter is_iterate sched) (d, rd)
               = Inr (s, filter (\<lambda>e. \<not> is_deregistered e) tr)"
      by blast
    with CallDeregister io show ?thesis by (simp add: etcd_DeregisterService_def)
  qed
qed

text \<open>Doubling an \<open>int64\<close> below \<open>2 ^ 62\<close> does not wrap.\<close>
lemma sint_double:
  fixes x :: int64
  assumes "0 \<le> sint x" and "sint x < 2 ^ 62"
  shows "sint (x * 2) = 2 * sint x"
proof -
  have "sint (x * 2) = signed_take_bit 63 (sint x * 2)"
    by (simp add: sint_word_ariths)
  also have "\<dots> = sint x * 2"
    using assms by (intro signed_take_bit_int_eq_self) auto
  finally show ?thesis by simp
qed

lemma newRetryDelay_sint:
  assumes "0 \<le> sint rd" and "sint rd < 2 ^ 62"
  shows "sint (newRetryDelay maxd rd) = min (2 * sint rd) (sint maxd)"
proof -
  have d: "sint (rd * 2) = 2 * sint rd" using assms by (rule sint_double)
  show ?thesis
  proof (cases "sint (rd * 2) > sint maxd")
    case True
    then show ?thesis using d by (simp add: newRetryDelay_def Let_def)
  next
    case False
    then show ?thesis using d by (simp add: newRetryDelay_def Let_def)
  qed
qed

lemma attempts_append: "attempts (xs @ ys) = attempts xs @ attempts ys"
  by (induction xs rule: attempts.induct) auto

lemma consul_run_delay:
  assumes "consul_run c d rd = Inr (d1, rd1, evs)"
  shows "\<exists>ok. attempts evs = [(rd, ok)]
            \<and> rd1 = (if ok then startRetryDelay d else newRetryDelay (maxRetryDelay d) rd)
            \<and> startRetryDelay d1 = startRetryDelay d \<and> maxRetryDelay d1 = maxRetryDelay d"
proof -
  from assms obtain inst opts where io: "serviceInstance d = Some inst" "options d = Some opts"
    by (cases "serviceInstance d"; cases "options d") (simp_all add: consul_run_def)
  show ?thesis
  proof (cases "isRegistered inst")
    case True
    show ?thesis
    proof (cases "consul_ttlUpdate c inst")
      case ok: True
      with True io assms show ?thesis by (simp add: consul_run_def) fastforce
    next
      case ok: False
      with True io assms show ?thesis by (simp add: consul_run_def) fastforce
    qed
  next
    case False
    show ?thesis
    proof (cases "consul_register c d inst opts")
      case ok: True
      with False io assms show ?thesis by (simp add: consul_run_def) fastforce
    next
      case ok: False
      with False io assms show ?thesis by (simp add: consul_run_def) fastforce
    qed
  qed
qed

lemma etcd_run_delay:
  assumes "etcd_run c d rd = Inr (d1, rd1, evs)"
  shows "\<exists>ok. attempts evs = [(rd, ok)]
            \<and> rd1 = (if ok then startRetryDelay d else newRetryDelay (maxRetryDelay d) rd)
            \<and> startRetryDelay d1 = startRetryDelay d \<and> maxRetryDelay d1 = maxRetryDelay d"
proof -
  from assms obtain inst opts where io: "serviceInstance d = Some inst" "options d = Some opts"
    by (cases "serviceInstance d"; cases "options d") (simp_all add: etcd_run_def)
  show ?thesis
  proof (cases "isRegistered inst")
    case True
    show ?thesis
    proof (cases "etcd_ttlUpdate c inst opts")
      case ok: True
      with True io assms show ?thesis by (simp add: etcd_run_def) fastforce
    next
      case ok: False
      with True io assms show ?thesis by (simp add: etcd_run_def) fastforce
    qed
  next
    case False
    obtain ok inst0 where r: "etcd_register c inst opts = (ok, inst0)"
      by (cases "etcd_register c inst opts")
    show ?thesis
    proof (cases ok)
      case ok: True
      with r False io assms show ?thesis by (simp add: etcd_run_def) fastforce
    next
      case ok: False
      with r False io assms show ?thesis by (simp add: etcd_run_def) fastforce
    qed
  qed
qed

subsection \<open>The delays of a trace\<close>

text \<open>
  While no doubling wraps, the delays of the attempts in a trace are the sequence the
  specification describes, for the outcomes the attempts had.
\<close>

lemma consul_exec_delays:
  assumes "0 \<le> sint (startRetryDelay d)" and "sint (startRetryDelay d) < 2 ^ 62"
      and "0 \<le> sint (maxRetryDelay d)" and "sint (maxRetryDelay d) < 2 ^ 62"
      and "0 \<le> sint rd" and "sint rd < 2 ^ 62"
      and "consul_exec sched (d, rd) = Inr (s, tr)"
  shows "map (\<lambda>p. sint (fst p)) (attempts tr)
         = spec_delays (sint rd) (sint (startRetryDelay d)) (sint (maxRetryDelay d))
             (map snd (attempts tr))"
  using assms
proof (induction sched arbitrary: d rd s tr)
  case Nil
  then show ?case by simp
next
  case (Cons a sched)
  show ?case
  proof (cases a)
    case (Iterate c)
    with Cons.prems(7) obtain d1 rd1 evs tr1 where
      r: "consul_run c d rd = Inr (d1, rd1, evs)" and
      e: "consul_exec sched (d1, rd1) = Inr (s, tr1)" and t: "tr = evs @ tr1"
      by (auto split: sum.splits)
    from consul_run_delay [OF r] obtain ok where
      k: "attempts evs = [(rd, ok)]"
         "rd1 = (if ok then startRetryDelay d else newRetryDelay (maxRetryDelay d) rd)"
         "startRetryDelay d1 = startRetryDelay d" "maxRetryDelay d1 = maxRetryDelay d"
      by blast
    have s1: "sint rd1 = (if ok then sint (startRetryDelay d)
                          else min (2 * sint rd) (sint (maxRetryDelay d)))"
      using k(2) Cons.prems(5,6) by (simp add: newRetryDelay_sint)
    have b: "0 \<le> sint rd1" "sint rd1 < 2 ^ 62"
      using s1 Cons.prems(1-6) by (auto simp: min_def)
    have p: "0 \<le> sint (startRetryDelay d1)" "sint (startRetryDelay d1) < 2 ^ 62"
            "0 \<le> sint (maxRetryDelay d1)" "sint (maxRetryDelay d1) < 2 ^ 62"
      using Cons.prems(1-4) k(3,4) by simp_all
    from Cons.IH [OF p b e] k(3,4)
    have "map (\<lambda>p. sint (fst p)) (attempts tr1)
          = spec_delays (sint rd1) (sint (startRetryDelay d)) (sint (maxRetryDelay d))
              (map snd (attempts tr1))"
      by simp
    with t k(1) s1 show ?thesis by (simp add: attempts_append)
  next
    case (CallDeregister c)
    with Cons.prems(7) obtain err tr1 where
      e: "consul_exec sched (d, rd) = Inr (s, tr1)" and t: "tr = Deregistered err # tr1"
      by (auto split: sum.splits)
    from Cons.IH [OF Cons.prems(1-6) e] t show ?thesis by simp
  qed
qed

lemma etcd_exec_delays:
  assumes "0 \<le> sint (startRetryDelay d)" and "sint (startRetryDelay d) < 2 ^ 62"
      and "0 \<le> sint (maxRetryDelay d)" and "sint (maxRetryDelay d) < 2 ^ 62"
      and "0 \<le> sint rd" and "sint rd < 2 ^ 62"
      and "etcd_exec sched (d, rd) = Inr (s, tr)"
  shows "map (\<lambda>p. sint (fst p)) (attempts tr)
         = spec_delays (sint rd) (sint (startRetryDelay d)) (sint (maxRetryDelay d))
             (map snd (attempts tr))"
  using assms
proof (induction sched arbitrary: d rd s tr)
  case Nil
  then show ?case by simp
next
  case (Cons a sched)
  show ?case
  proof (cases a)
    case (Iterate c)
    with Cons.prems(7) obtain d1 rd1 evs tr1 where
      r: "etcd_run c d rd = Inr (d1, rd1, evs)" and
      e: "etcd_exec sched (d1, rd1) = Inr (s, tr1)" and t: "tr = evs @ tr1"
      by (auto split: sum.splits)
    from etcd_run_delay [OF r] obtain ok where
      k: "attempts evs = [(rd, ok)]"
         "rd1 = (if ok then startRetryDelay d else newRetryDelay (maxRetryDelay d) rd)"
         "startRetryDelay d1 = startRetryDelay d" "maxRetryDelay d1 = maxRetryDelay d"
      by blast
    have s1: "sint rd1 = (if ok then sint (startRetryDelay d)
                          else min (2 * sint rd) (sint (maxRetryDelay d)))"
      using k(2) Cons.prems(5,6) by (simp add: newRetryDelay_sint)
    have b: "0 \<le> sint rd1" "sint rd1 < 2 ^ 62"
      using s1 Cons.prems(1-6) by (auto simp: min_def)
    have p: "0 \<le> sint (startRetryDelay d1)" "sint (startRetryDelay d1) < 2 ^ 62"
            "0 \<le> sint (maxRetryDelay d1)" "sint (maxRetryDelay d1) < 2 ^ 62"
      using Cons.prems(1-4) k(3,4) by simp_all
    from Cons.IH [OF p b e] k(3,4)
    have "map (\<lambda>p. sint (fst p)) (attempts tr1)
          = spec_delays (sint rd1) (sint (startRetryDelay d)) (sint (maxRetryDelay d))
              (map snd (attempts tr1))"
      by simp
    with t k(1) s1 show ?thesis by (simp add: attempts_append)
  next
    case (CallDeregister c)
    with Cons.prems(7) obtain err tr1 where
      e: "etcd_exec sched (d, rd) = Inr (s, tr1)" and t: "tr = Deregistered err # tr1"
      by (auto split: sum.splits)
    from Cons.IH [OF Cons.prems(1-6) e] t show ?thesis by simp
  qed
qed

lemma min_double_step:
  fixes cur maxd :: int
  assumes "0 \<le> cur" and "cur \<le> maxd"
  shows "min (min (2 * cur) maxd * 2 ^ i) maxd = min (cur * 2 ^ Suc i) maxd"
proof (cases "2 * cur \<le> maxd")
  case True
  then have "min (2 * cur) maxd = 2 * cur" by simp
  moreover have "2 * cur * 2 ^ i = cur * 2 ^ Suc i" by simp
  ultimately show ?thesis by simp
next
  case False
  then have 1: "min (2 * cur) maxd = maxd" by simp
  have p: "(1::int) \<le> 2 ^ i" by simp
  have m0: "0 \<le> maxd" using assms by simp
  have "maxd * 1 \<le> maxd * 2 ^ i"
    using p m0 by (rule mult_left_mono)
  then have 2: "min (maxd * 2 ^ i) maxd = maxd" by simp
  have c0: "0 \<le> 2 * cur" using assms by simp
  have "2 * cur * 1 \<le> 2 * cur * 2 ^ i"
    using p c0 by (rule mult_left_mono)
  then have "2 * cur \<le> cur * 2 ^ Suc i" by simp
  with False have "maxd \<le> cur * 2 ^ Suc i" by linarith
  then have "min (cur * 2 ^ Suc i) maxd = maxd" by simp
  with 1 2 show ?thesis by simp
qed

lemma spec_delays_failures:
  assumes "0 \<le> cur" and "cur \<le> maxd"
  shows "spec_delays cur st maxd (replicate k False)
         = map (\<lambda>i. min (cur * 2 ^ i) maxd) [0..<k]"
  using assms
proof (induction k arbitrary: cur)
  case 0
  then show ?case by simp
next
  case (Suc k)
  have m: "0 \<le> min (2 * cur) maxd" "min (2 * cur) maxd \<le> maxd"
    using Suc.prems by auto
  have "spec_delays (min (2 * cur) maxd) st maxd (replicate k False)
        = map (\<lambda>i. min (min (2 * cur) maxd * 2 ^ i) maxd) [0..<k]"
    by (rule Suc.IH [OF m])
  also have "\<dots> = map (\<lambda>i. min (cur * 2 ^ Suc i) maxd) [0..<k]"
    using min_double_step [OF Suc.prems] by simp
  also have "\<dots> = map (\<lambda>i. min (cur * 2 ^ i) maxd) (map Suc [0..<k])"
    by (simp add: comp_def)
  finally have t: "spec_delays (min (2 * cur) maxd) st maxd (replicate k False)
        = map (\<lambda>i. min (cur * 2 ^ i) maxd) (map Suc [0..<k])" .
  have u: "[0..<Suc k] = 0 # map Suc [0..<k]"
    by (simp add: upt_conv_Cons map_Suc_upt del: upt_Suc)
  have h: "min cur maxd = cur" using Suc.prems by simp
  show ?case unfolding u using t h by simp
qed

text \<open>
  The conversion of a delay in milliseconds to a duration does not wrap while the delay
  times \<open>10 ^ 6\<close> stays below \<open>2 ^ 63\<close>; a failed step is an attempt followed by a sleep
  of its delay.
\<close>

lemma sint_Millisecond:
  fixes r :: int64
  assumes "0 \<le> sint r" and "sint r * 1000000 < 2 ^ 63"
  shows "sint (r * Millisecond) = sint r * 1000000"
proof -
  have m: "sint Millisecond = 1000000" by (simp add: Millisecond_def)
  have "sint (r * Millisecond) = signed_take_bit 63 (sint r * sint Millisecond)"
    by (simp add: sint_word_ariths)
  also have "\<dots> = sint r * 1000000"
    unfolding m using assms by (intro signed_take_bit_int_eq_self) auto
  finally show ?thesis .
qed

lemma consul_run_shape:
  assumes "consul_run c d rd = Inr (d1, rd1, evs)"
  shows "(\<exists>a. evs = [Attempt a rd False, Sleep (rd * Millisecond)])
       \<or> (\<exists>a. evs = [Attempt a rd True])
       \<or> (\<exists>a t. evs = [Attempt a rd True, Sleep t])"
proof -
  from assms obtain inst opts where io: "serviceInstance d = Some inst" "options d = Some opts"
    by (cases "serviceInstance d"; cases "options d") (simp_all add: consul_run_def)
  show ?thesis
  proof (cases "isRegistered inst")
    case True
    show ?thesis
    proof (cases "consul_ttlUpdate c inst")
      case ok: True
      with True io assms show ?thesis by (simp add: consul_run_def) fastforce
    next
      case ok: False
      with True io assms show ?thesis by (simp add: consul_run_def) fastforce
    qed
  next
    case False
    show ?thesis
    proof (cases "consul_register c d inst opts")
      case ok: True
      with False io assms show ?thesis by (simp add: consul_run_def) fastforce
    next
      case ok: False
      with False io assms show ?thesis by (simp add: consul_run_def) fastforce
    qed
  qed
qed

lemma etcd_run_shape:
  assumes "etcd_run c d rd = Inr (d1, rd1, evs)"
  shows "(\<exists>a. evs = [Attempt a rd False, Sleep (rd * Millisecond)])
       \<or> (\<exists>a. evs = [Attempt a rd True])
       \<or> (\<exists>a t. evs = [Attempt a rd True, Sleep t])"
proof -
  from assms obtain inst opts where io: "serviceInstance d = Some inst" "options d = Some opts"
    by (cases "serviceInstance d"; cases "options d") (simp_all add: etcd_run_def)
  show ?thesis
  proof (cases "isRegistered inst")
    case True
    show ?thesis
    proof (cases "etcd_ttlUpdate c inst opts")
      case ok: True
      with True io assms show ?thesis by (simp add: etcd_run_def) fastforce
    next
      case ok: False
      with True io assms show ?thesis by (simp add: etcd_run_def) fastforce
    qed
  next
    case False
    obtain ok inst0 where r: "etcd_register c inst opts = (ok, inst0)"
      by (cases "etcd_register c inst opts")
    show ?thesis
    proof (cases ok)
      case ok: True
      with r False io assms show ?thesis by (simp add: etcd_run_def) fastforce
    next
      case ok: False
      with r False io assms show ?thesis by (simp add: etcd_run_def) fastforce
    qed
  qed
qed

lemma step_waits:
  assumes "(\<exists>a. evs = [Attempt a rd False, Sleep (rd * Millisecond)])
       \<or> (\<exists>a. evs = [Attempt a rd True])
       \<or> (\<exists>a t. evs = [Attempt a rd True, Sleep t])"
      and "attempts evs = [(rd, ok)]"
  shows "failure_waits (evs @ tr) = (if ok then [] else [rd * Millisecond]) @ failure_waits tr"
  using assms by (cases tr rule: failure_waits.cases) auto

lemma below_2_62:
  fixes x :: int
  assumes "0 \<le> x" and "x * 1000000 < 2 ^ 63"
  shows "x < 2 ^ 62"
  using assms by simp

lemma consul_exec_waits:
  assumes "0 \<le> sint (startRetryDelay d)" and "sint (startRetryDelay d) * 1000000 < 2 ^ 63"
      and "0 \<le> sint (maxRetryDelay d)" and "sint (maxRetryDelay d) * 1000000 < 2 ^ 63"
      and "0 \<le> sint rd" and "sint rd * 1000000 < 2 ^ 63"
      and "consul_exec sched (d, rd) = Inr (s, tr)"
  shows "map sint (failure_waits tr)
         = map (\<lambda>p. sint (fst p) * 1000000) (filter (\<lambda>p. \<not> snd p) (attempts tr))"
  using assms
proof (induction sched arbitrary: d rd s tr)
  case Nil
  then show ?case by simp
next
  case (Cons a sched)
  show ?case
  proof (cases a)
    case (Iterate c)
    with Cons.prems(7) obtain d1 rd1 evs tr1 where
      r: "consul_run c d rd = Inr (d1, rd1, evs)" and
      e: "consul_exec sched (d1, rd1) = Inr (s, tr1)" and t: "tr = evs @ tr1"
      by (auto split: sum.splits)
    from consul_run_delay [OF r] obtain ok where
      k: "attempts evs = [(rd, ok)]"
         "rd1 = (if ok then startRetryDelay d else newRetryDelay (maxRetryDelay d) rd)"
         "startRetryDelay d1 = startRetryDelay d" "maxRetryDelay d1 = maxRetryDelay d"
      by blast
    have lt: "sint rd < 2 ^ 62"
      using Cons.prems(5,6) by (rule below_2_62)
    have s1: "sint rd1 = (if ok then sint (startRetryDelay d)
                          else min (2 * sint rd) (sint (maxRetryDelay d)))"
      using k(2) Cons.prems(5) lt by (simp add: newRetryDelay_sint)
    have b: "0 \<le> sint rd1" "sint rd1 * 1000000 < 2 ^ 63"
      using s1 Cons.prems(1-6) by (auto simp: min_def)
    have p: "0 \<le> sint (startRetryDelay d1)" "sint (startRetryDelay d1) * 1000000 < 2 ^ 63"
            "0 \<le> sint (maxRetryDelay d1)" "sint (maxRetryDelay d1) * 1000000 < 2 ^ 63"
      using Cons.prems(1-4) k(3,4) by simp_all
    have ih: "map sint (failure_waits tr1)
         = map (\<lambda>p. sint (fst p) * 1000000) (filter (\<lambda>p. \<not> snd p) (attempts tr1))"
      using p b e by (rule Cons.IH)
    have w: "failure_waits (evs @ tr1) = (if ok then [] else [rd * Millisecond]) @ failure_waits tr1"
      using consul_run_shape [OF r] k(1) by (rule step_waits)
    have m: "sint (rd * Millisecond) = sint rd * 1000000"
      using Cons.prems(5,6) by (rule sint_Millisecond)
    show ?thesis unfolding t w using ih k(1) m by (simp add: attempts_append)
  next
    case (CallDeregister c)
    with Cons.prems(7) obtain err tr1 where
      e: "consul_exec sched (d, rd) = Inr (s, tr1)" and t: "tr = Deregistered err # tr1"
      by (auto split: sum.splits)
    from Cons.IH [OF Cons.prems(1-6) e] t show ?thesis by simp
  qed
qed

lemma etcd_exec_waits:
  assumes "0 \<le> sint (startRetryDelay d)" and "sint (startRetryDelay d) * 1000000 < 2 ^ 63"
      and "0 \<le> sint (maxRetryDelay d)" and "sint (maxRetryDelay d) * 1000000 < 2 ^ 63"
      and "0 \<le> sint rd" and "sint rd * 1000000 < 2 ^ 63"
      and "etcd_exec sched (d, rd) = Inr (s, tr)"
  shows "map sint (failure_waits tr)
         = map (\<lambda>p. sint (fst p) * 1000000) (filter (\<lambda>p. \<not> snd p) (attempts tr))"
  using assms
proof (induction sched arbitrary: d rd s tr)
  case Nil
  then show ?case by simp
next
  case (Cons a sched)
  show ?case
  proof (cases a)
    case (Iterate c)
    with Cons.prems(7) obtain d1 rd1 evs tr1 where
      r: "etcd_run c d rd = Inr (d1, rd1, evs)" and
      e: "etcd_exec sched (d1, rd1) = Inr (s, tr1)" and t: "tr = evs @ tr1"
      by (auto split: sum.splits)
    from etcd_run_delay [OF r] obtain ok where
      k: "attempts evs = [(rd, ok)]"
         "rd1 = (if ok then startRetryDelay d else newRetryDelay (maxRetryDelay d) rd)"
         "startRetryDelay d1 = startRetryDelay d" "maxRetryDelay d1 = maxRetryDelay d"
      by blast
    have lt: "sint rd < 2 ^ 62"
      using Cons.prems(5,6) by (rule below_2_62)
    have s1: "sint rd1 = (if ok then sint (startRetryDelay d)
                          else min (2 * sint rd) (sint (maxRetryDelay d)))"
      using k(2) Cons.prems(5) lt by (simp add: newRetryDelay_sint)
    have b: "0 \<le> sint rd1" "sint rd1 * 1000000 < 2 ^ 63"
      using s1 Cons.prems(1-6) by (auto simp: min_def)
    have p: "0 \<le> sint (startRetryDelay d1)" "sint (startRetryDelay d1) * 1000000 < 2 ^ 63"
            "0 \<le> sint (maxRetryDelay d1)" "sint (maxRetryDelay d1) * 1000000 < 2 ^ 63"
      using Cons.prems(1-4) k(3,4) by simp_all
    have ih: "map sint (failure_waits tr1)
         = map (\<lambda>p. sint (fst p) * 1000000) (filter (\<lambda>p. \<not> snd p) (attempts tr1))"
      using p b e by (rule Cons.IH)
    have w: "failure_waits (evs @ tr1) = (if ok then [] else [rd * Millisecond]) @ failure_waits tr1"
      using etcd_run_shape [OF r] k(1) by (rule step_waits)
    have m: "sint (rd * Millisecond) = sint rd * 1000000"
      using Cons.prems(5,6) by (rule sint_Millisecond)
    show ?thesis unfolding t w using ih k(1) m by (simp add: attempts_append)
  next
    case (CallDeregister c)
    with Cons.prems(7) obtain err tr1 where
      e: "etcd_exec sched (d, rd) = Inr (s, tr1)" and t: "tr = Deregistered err # tr1"
      by (auto split: sum.splits)
    from Cons.IH [OF Cons.prems(1-6) e] t show ?thesis by simp
  qed
qed

subsection \<open>Unfolding the examples\<close>

lemmas example_defs =
  consul_fresh_def etcd_fresh_def consul_RegisterService_def etcd_RegisterService_def
  newConsulDiscoverySource_def newEtcdDiscoverySource_def example_regconf_def
  singleton_no_def singleton_yes_def consul_accepting_def consul_check_gone_def
  consul_unreachable_def consul_one_healthy_def healthy_svc_entry_def
  etcd_accepting_def etcd_unreachable_def etcd_one_active_def

lemmas example_defs2 = example_defs consul_fresh_instance_def etcd_fresh_instance_def

lemmas loop_defs =
  consul_run_def etcd_run_def consul_register_def etcd_register_def
  consul_isServiceRegistered_def etcd_isServiceRegistered_def consul_ttlUpdate_def
  etcd_ttlUpdate_def consul_DeregisterService_def etcd_DeregisterService_def
  newRetryDelay_def Millisecond_def Second_def trace_of_def Let_def

lemma trace_of_Inr: "trace_of r = Inr tr \<Longrightarrow> \<exists>s. r = Inr (s, tr)"
  by (auto simp: trace_of_def split: sum.splits)

lemma etcd_singleton_refused:
  assumes "singleton inst" and "etcd_isServiceRegistered c opts"
  shows "etcd_register c inst opts = (False, inst)"
  using assms by (simp add: etcd_register_def)

subsection \<open>Deregistration and the loop\<close>

text \<open>
  C1, as the code has it. \<open>DeregisterService\<close> asks the backend to remove the record and
  changes nothing in the source; the loop has no branch that ends it. So for every schedule
  of loop steps and \<open>DeregisterService\<close> calls, from a source on which \<open>RegisterService\<close>
  has been called, nothing panics, every loop step makes one register or TTL-update
  attempt, wherever the deregistrations fall, and the loop's part of the run is the same as
  in the schedule with the deregistrations removed (the backend answering as before).
\<close>

theorem DeregisterService_does_not_stop_the_loop:
  assumes "serviceInstance dc \<noteq> None" and "options dc \<noteq> None"
      and "serviceInstance de \<noteq> None" and "options de \<noteq> None"
  shows "(\<exists>s tr. consul_exec sc (dc, rc) = Inr (s, tr)
            \<and> length (filter is_attempt tr) = length (filter is_iterate sc)
            \<and> consul_exec (filter is_iterate sc) (dc, rc)
                = Inr (s, filter (\<lambda>e. \<not> is_deregistered e) tr))
       \<and> (\<exists>s tr. etcd_exec se (de, re) = Inr (s, tr)
            \<and> length (filter is_attempt tr) = length (filter is_iterate se)
            \<and> etcd_exec (filter is_iterate se) (de, re)
                = Inr (s, filter (\<lambda>e. \<not> is_deregistered e) tr))"
  using consul_exec_total [OF assms(1,2)] etcd_exec_total [OF assms(3,4)] by simp

theorem DeregisterService_does_not_stop_the_loop_witness:
  "serviceInstance (consul_fresh 500 900000 singleton_no) \<noteq> None
   \<and> options (consul_fresh 500 900000 singleton_no) \<noteq> None
   \<and> serviceInstance (etcd_fresh 500 900000 singleton_no) \<noteq> None
   \<and> options (etcd_fresh 500 900000 singleton_no) \<noteq> None
   \<and> (\<exists>s tr. consul_exec [CallDeregister consul_accepting, Iterate consul_check_gone]
                 (consul_fresh 500 900000 singleton_no, 500) = Inr (s, tr)
            \<and> length (filter is_attempt tr) = 1)
   \<and> (\<exists>s tr. etcd_exec [CallDeregister etcd_accepting, Iterate etcd_accepting]
                 (etcd_fresh 500 900000 singleton_no, 500) = Inr (s, tr)
            \<and> length (filter is_attempt tr) = 1)"
proof -
  have h: "serviceInstance (consul_fresh 500 900000 singleton_no) \<noteq> None"
          "options (consul_fresh 500 900000 singleton_no) \<noteq> None"
          "serviceInstance (etcd_fresh 500 900000 singleton_no) \<noteq> None"
          "options (etcd_fresh 500 900000 singleton_no) \<noteq> None"
    by (simp_all add: example_defs)
  from DeregisterService_does_not_stop_the_loop [OF h,
      of "[CallDeregister consul_accepting, Iterate consul_check_gone]" 500
         "[CallDeregister etcd_accepting, Iterate etcd_accepting]" 500]
  show ?thesis using h by simp blast
qed

text \<open>
  As the specification states it, the property fails: the Consul loop registers, the
  caller deregisters, and the loop goes on with a TTL update (which fails, the check being
  gone) and then registers the service again.
\<close>

theorem loop_attempts_after_DeregisterService:
  "trace_of
     (consul_exec [Iterate consul_accepting, CallDeregister consul_accepting,
                   Iterate consul_check_gone, Iterate consul_accepting]
        (consul_fresh 500 900000 singleton_no, 500))
   = Inr [Attempt RegisterAttempt 500 True, Deregistered None,
          Attempt TTLUpdateAttempt 500 False, Sleep 500000000,
          Attempt RegisterAttempt 1000 True]"
  by (simp add: example_defs loop_defs)

subsection \<open>Singleton registration\<close>

text \<open>
  C2, at the failing input. A healthy instance of \<open>svc\<close> in \<open>dev\<close>, version \<open>1.0.0\<close>,
  is registered at the Consul agent under the service name \<open>dev-svc\<close>. A second
  registration of the same name, environment and version with \<open>singleton\<close> set asks the
  health endpoint for services named by its own instance id \<open>svc-uuid\<close>, gets none, and
  registers: the attempt succeeds and the loop goes on to TTL updates.
\<close>

theorem consul_singleton_registers_beside_healthy_instance:
  "Health_Service consul_one_healthy ''dev-svc'' [] True = Inr [healthy_svc_entry]
   \<and> singleton (consul_fresh_instance singleton_yes)
   \<and> name (consul_fresh_instance singleton_yes) = ''dev-svc''
   \<and> versionTag (consul_fresh_instance singleton_yes) \<in> set (Service_Tags healthy_svc_entry)
   \<and> serviceInstance (consul_fresh 500 900000 singleton_yes)
       = Some (consul_fresh_instance singleton_yes)
   \<and> consul_isServiceRegistered consul_one_healthy (consul_fresh_instance singleton_yes) = False
   \<and> consul_register consul_one_healthy (consul_fresh 500 900000 singleton_yes)
        (consul_fresh_instance singleton_yes) (example_regconf singleton_yes) = True
   \<and> trace_of (consul_exec [Iterate consul_one_healthy, Iterate consul_one_healthy]
                 (consul_fresh 500 900000 singleton_yes, 500))
      = Inr [Attempt RegisterAttempt 500 True, Attempt TTLUpdateAttempt 500 True,
             Sleep 20000000000]"
  by (simp add: example_defs2 loop_defs)

text \<open>
  C6, as the code has it. \<open>RegisterService\<close> consults no backend: for every call it
  returns the generated instance id and a \<open>nil\<close> error, for both sources. With etcd, an
  active instance of the same environment, name and version refuses the \<open>singleton\<close>
  registration inside the loop: the attempt fails, the source is unchanged and the loop
  waits the current delay before it tries again.
\<close>

theorem RegisterService_never_fails:
  assumes "serviceInstance de = Some ie" and "options de = Some oe"
      and "\<not> isRegistered ie" and "singleton ie" and "etcd_isServiceRegistered ec oe"
  shows "fst (consul_RegisterService load u opts dc) = (Name (load opts) @ ''-'' @ u, None)
       \<and> fst (etcd_RegisterService load u opts de0) = (u, None)
       \<and> etcd_run ec de rd
          = Inr (de, newRetryDelay (maxRetryDelay de) rd,
                 [Attempt RegisterAttempt rd False, Sleep (rd * Millisecond)])"
proof -
  have "de\<lparr>serviceInstance := Some ie\<rparr> = de"
    using assms(1) by simp
  then have "etcd_run ec de rd
          = Inr (de, newRetryDelay (maxRetryDelay de) rd,
                 [Attempt RegisterAttempt rd False, Sleep (rd * Millisecond)])"
    using assms etcd_singleton_refused [OF assms(4,5)] by (simp add: etcd_run_def)
  then show ?thesis
    by (simp add: consul_RegisterService_def etcd_RegisterService_def Let_def)
qed

theorem RegisterService_never_fails_witness:
  "serviceInstance (etcd_fresh 500 900000 singleton_yes) = Some (etcd_fresh_instance singleton_yes)
   \<and> options (etcd_fresh 500 900000 singleton_yes) = Some (example_regconf singleton_yes)
   \<and> \<not> isRegistered (etcd_fresh_instance singleton_yes)
   \<and> singleton (etcd_fresh_instance singleton_yes)
   \<and> etcd_isServiceRegistered etcd_one_active (example_regconf singleton_yes)
   \<and> fst (consul_RegisterService example_regconf ''uuid'' singleton_yes
             (newConsulDiscoverySource 500 900000 None)) = (''svc-uuid'', None)
   \<and> fst (etcd_RegisterService example_regconf ''uuid'' singleton_yes
             (newEtcdDiscoverySource 500 900000)) = (''uuid'', None)
   \<and> etcd_run etcd_one_active (etcd_fresh 500 900000 singleton_yes) 500
      = Inr (etcd_fresh 500 900000 singleton_yes, 1000,
             [Attempt RegisterAttempt 500 False, Sleep 500000000])"
proof -
  have h: "serviceInstance (etcd_fresh 500 900000 singleton_yes) = Some (etcd_fresh_instance singleton_yes)"
     "options (etcd_fresh 500 900000 singleton_yes) = Some (example_regconf singleton_yes)"
     "\<not> isRegistered (etcd_fresh_instance singleton_yes)"
     "singleton (etcd_fresh_instance singleton_yes)"
     "etcd_isServiceRegistered etcd_one_active (example_regconf singleton_yes)"
    by (simp_all add: example_defs2 loop_defs Base_def last_element_def strip_trailing_slashes_def)
  have n: "Name (example_regconf singleton_yes) @ ''-'' @ ''uuid'' = ''svc-uuid''"
          "newRetryDelay (maxRetryDelay (etcd_fresh 500 900000 singleton_yes)) 500 = 1000"
          "(500 :: int64) * Millisecond = 500000000"
    by (simp_all add: example_defs2 loop_defs)
  from RegisterService_never_fails [OF h, of example_regconf "''uuid''" singleton_yes
      "newConsulDiscoverySource 500 900000 None" "newEtcdDiscoverySource 500 900000" 500]
  show ?thesis using h unfolding n by blast
qed

text \<open>
  As the specification states it, the property fails: with an active instance of the same
  kind in the store and \<open>singleton\<close> set, \<open>RegisterService\<close> still returns the id and
  no error.
\<close>

theorem RegisterService_returns_id_despite_active_instance:
  "etcd_isServiceRegistered etcd_one_active (example_regconf singleton_yes)
   \<and> Singleton singleton_yes
   \<and> fst (etcd_RegisterService example_regconf ''uuid'' singleton_yes
             (newEtcdDiscoverySource 500 900000)) = (''uuid'', None)"
  by (simp add: example_defs2 loop_defs Base_def last_element_def strip_trailing_slashes_def)

subsection \<open>The first TTL update\<close>

text \<open>
  C3, as the code has it. With Consul, a successful registration is followed by no sleep:
  the step's only event is the attempt, and the next step is a TTL update made with the
  start delay; a successful TTL update then sleeps the ping interval. With etcd, a
  successful registration sleeps the ping interval before the loop goes on.
\<close>

theorem first_TTL_update_after_registration:
  assumes "serviceInstance dc = Some ic" and "options dc = Some oc"
      and "\<not> isRegistered ic" and "consul_register cc dc ic oc"
      and "serviceInstance de = Some ie" and "options de = Some oe"
      and "\<not> isRegistered ie" and "fst (etcd_register ec ie oe)"
  shows "(\<exists>d1. consul_run cc dc rd = Inr (d1, startRetryDelay dc, [Attempt RegisterAttempt rd True])
            \<and> (\<forall>c2. \<exists>d2 rd2 ok.
                  consul_run c2 d1 (startRetryDelay dc)
                  = Inr (d2, rd2,
                         [Attempt TTLUpdateAttempt (startRetryDelay dc) ok,
                          Sleep (if ok then Discovery_PingInterval oc * Second
                                 else startRetryDelay dc * Millisecond)])))
       \<and> (\<exists>d1. etcd_run ec de rd'
                 = Inr (d1, startRetryDelay de,
                        [Attempt RegisterAttempt rd' True,
                         Sleep (Discovery_PingInterval oe * Second)]))"
proof
  let ?d1 = "dc\<lparr>serviceInstance := Some (ic\<lparr>isRegistered := True\<rparr>)\<rparr>"
  have 1: "consul_run cc dc rd = Inr (?d1, startRetryDelay dc, [Attempt RegisterAttempt rd True])"
    using assms(1-4) by (simp add: consul_run_def)
  have 2: "\<exists>d2 rd2 ok. consul_run c2 ?d1 (startRetryDelay dc)
                  = Inr (d2, rd2,
                         [Attempt TTLUpdateAttempt (startRetryDelay dc) ok,
                          Sleep (if ok then Discovery_PingInterval oc * Second
                                 else startRetryDelay dc * Millisecond)])" for c2
    using assms(2) by (cases "consul_ttlUpdate c2 (ic\<lparr>isRegistered := True\<rparr>)")
      (auto simp: consul_run_def)
  from 1 2 show "\<exists>d1. consul_run cc dc rd = Inr (d1, startRetryDelay dc, [Attempt RegisterAttempt rd True])
            \<and> (\<forall>c2. \<exists>d2 rd2 ok.
                  consul_run c2 d1 (startRetryDelay dc)
                  = Inr (d2, rd2,
                         [Attempt TTLUpdateAttempt (startRetryDelay dc) ok,
                          Sleep (if ok then Discovery_PingInterval oc * Second
                                 else startRetryDelay dc * Millisecond)]))"
    by blast
next
  obtain ok inst0 where r: "etcd_register ec ie oe = (ok, inst0)"
    by (cases "etcd_register ec ie oe")
  with assms(8) have "ok" by simp
  with r assms(5-7) show "\<exists>d1. etcd_run ec de rd'
                 = Inr (d1, startRetryDelay de,
                        [Attempt RegisterAttempt rd' True,
                         Sleep (Discovery_PingInterval oe * Second)])"
    by (simp add: etcd_run_def)
qed

theorem first_TTL_update_after_registration_witness:
  "serviceInstance (consul_fresh 500 900000 singleton_no) = Some (consul_fresh_instance singleton_no)
   \<and> options (consul_fresh 500 900000 singleton_no) = Some (example_regconf singleton_no)
   \<and> \<not> isRegistered (consul_fresh_instance singleton_no)
   \<and> consul_register consul_accepting (consul_fresh 500 900000 singleton_no)
        (consul_fresh_instance singleton_no) (example_regconf singleton_no)
   \<and> serviceInstance (etcd_fresh 500 900000 singleton_no) = Some (etcd_fresh_instance singleton_no)
   \<and> options (etcd_fresh 500 900000 singleton_no) = Some (example_regconf singleton_no)
   \<and> \<not> isRegistered (etcd_fresh_instance singleton_no)
   \<and> fst (etcd_register etcd_accepting (etcd_fresh_instance singleton_no)
             (example_regconf singleton_no))
   \<and> (\<exists>d1. consul_run consul_accepting (consul_fresh 500 900000 singleton_no) 500
              = Inr (d1, 500, [Attempt RegisterAttempt 500 True]))
   \<and> (\<exists>d1. etcd_run etcd_accepting (etcd_fresh 500 900000 singleton_no) 500
              = Inr (d1, 500, [Attempt RegisterAttempt 500 True, Sleep 20000000000]))"
proof -
  have h: "serviceInstance (consul_fresh 500 900000 singleton_no) = Some (consul_fresh_instance singleton_no)"
     "options (consul_fresh 500 900000 singleton_no) = Some (example_regconf singleton_no)"
     "\<not> isRegistered (consul_fresh_instance singleton_no)"
     "consul_register consul_accepting (consul_fresh 500 900000 singleton_no)
        (consul_fresh_instance singleton_no) (example_regconf singleton_no)"
     "serviceInstance (etcd_fresh 500 900000 singleton_no) = Some (etcd_fresh_instance singleton_no)"
     "options (etcd_fresh 500 900000 singleton_no) = Some (example_regconf singleton_no)"
     "\<not> isRegistered (etcd_fresh_instance singleton_no)"
     "fst (etcd_register etcd_accepting (etcd_fresh_instance singleton_no)
             (example_regconf singleton_no))"
    by (simp_all add: example_defs2 loop_defs)
  have s: "startRetryDelay (consul_fresh 500 900000 singleton_no) = 500"
          "startRetryDelay (etcd_fresh 500 900000 singleton_no) = 500"
          "Discovery_PingInterval (example_regconf singleton_no) * Second = 20000000000"
    by (simp_all add: example_defs2 Second_def)
  from first_TTL_update_after_registration [OF h, of 500 500]
  show ?thesis using h unfolding s by blast
qed

text \<open>
  As the specification states it, the property fails for etcd: the loop sleeps 20 seconds
  between the successful registration and the first TTL update.
\<close>

theorem etcd_sleeps_before_first_TTL_update:
  "trace_of
     (etcd_exec [Iterate etcd_accepting, Iterate etcd_accepting]
        (etcd_fresh 500 900000 singleton_no, 500))
   = Inr [Attempt RegisterAttempt 500 True, Sleep 20000000000,
          Attempt TTLUpdateAttempt 500 True, Sleep 20000000000]"
  by (simp add: example_defs loop_defs)

subsection \<open>The retry delays\<close>

text \<open>
  C4, as the code has it. \<open>RegisterService\<close> starts the loop with the start delay. When
  the start delay and the maximum are not negative and, taken as nanoseconds, below
  \<open>2 ^ 63\<close> (at most 9223372036854 ms), so that neither the doubling nor the conversion to
  a duration wraps, the delays of the attempts are those of the specification: twice the
  current delay, clamped at the maximum, after a failure, and the start delay after a
  success; and every failed attempt is followed by a sleep of its delay, \<open>10 ^ 6\<close>
  nanoseconds for each millisecond. When also the start delay is at most the maximum, the
  \<open>i\<close>-th of \<open>k\<close> failures in a row waits \<open>min (startDelay * 2 ^ i) maxDelay\<close>
  milliseconds.
\<close>

theorem retry_delay_sequence:
  assumes "0 \<le> sint start" and "sint start * 1000000 < 2 ^ 63"
      and "0 \<le> sint maxd" and "sint maxd * 1000000 < 2 ^ 63"
      and "startRetryDelay dc = start" and "maxRetryDelay dc = maxd"
      and "trace_of (consul_exec sc (dc, start)) = Inr tc"
      and "startRetryDelay de = start" and "maxRetryDelay de = maxd"
      and "trace_of (etcd_exec se (de, start)) = Inr te"
  shows "snd (snd (consul_RegisterService load u opts dc)) = start
       \<and> snd (snd (etcd_RegisterService load u opts de)) = start
       \<and> map (\<lambda>p. sint (fst p)) (attempts tc)
           = spec_delays (sint start) (sint start) (sint maxd) (map snd (attempts tc))
       \<and> map sint (failure_waits tc)
           = map (\<lambda>p. sint (fst p) * 1000000) (filter (\<lambda>p. \<not> snd p) (attempts tc))
       \<and> map (\<lambda>p. sint (fst p)) (attempts te)
           = spec_delays (sint start) (sint start) (sint maxd) (map snd (attempts te))
       \<and> map sint (failure_waits te)
           = map (\<lambda>p. sint (fst p) * 1000000) (filter (\<lambda>p. \<not> snd p) (attempts te))
       \<and> (sint start \<le> sint maxd \<longrightarrow>
            (\<forall>k. map snd (attempts tc) = replicate k False \<longrightarrow>
                 map (\<lambda>p. sint (fst p)) (attempts tc)
                 = map (\<lambda>i. min (sint start * 2 ^ i) (sint maxd)) [0..<k]
               \<and> map sint (failure_waits tc)
                 = map (\<lambda>i. min (sint start * 2 ^ i) (sint maxd) * 1000000) [0..<k])
          \<and> (\<forall>k. map snd (attempts te) = replicate k False \<longrightarrow>
                 map (\<lambda>p. sint (fst p)) (attempts te)
                 = map (\<lambda>i. min (sint start * 2 ^ i) (sint maxd)) [0..<k]
               \<and> map sint (failure_waits te)
                 = map (\<lambda>i. min (sint start * 2 ^ i) (sint maxd) * 1000000) [0..<k]))"
proof -
  from assms(7) obtain s1 where c: "consul_exec sc (dc, start) = Inr (s1, tc)"
    by (auto dest: trace_of_Inr)
  from assms(10) obtain s2 where e: "etcd_exec se (de, start) = Inr (s2, te)"
    by (auto dest: trace_of_Inr)
  have lt: "sint start < 2 ^ 62" "sint maxd < 2 ^ 62"
    using assms(1-4) by (simp_all add: below_2_62)
  have pc: "0 \<le> sint (startRetryDelay dc)" "sint (startRetryDelay dc) < 2 ^ 62"
           "0 \<le> sint (maxRetryDelay dc)" "sint (maxRetryDelay dc) < 2 ^ 62"
    using assms(1,3,5,6) lt by simp_all
  have pe: "0 \<le> sint (startRetryDelay de)" "sint (startRetryDelay de) < 2 ^ 62"
           "0 \<le> sint (maxRetryDelay de)" "sint (maxRetryDelay de) < 2 ^ 62"
    using assms(1,3,8,9) lt by simp_all
  have qc: "0 \<le> sint (startRetryDelay dc)" "sint (startRetryDelay dc) * 1000000 < 2 ^ 63"
           "0 \<le> sint (maxRetryDelay dc)" "sint (maxRetryDelay dc) * 1000000 < 2 ^ 63"
    using assms(1-6) by simp_all
  have qe: "0 \<le> sint (startRetryDelay de)" "sint (startRetryDelay de) * 1000000 < 2 ^ 63"
           "0 \<le> sint (maxRetryDelay de)" "sint (maxRetryDelay de) * 1000000 < 2 ^ 63"
    using assms(1-4,8,9) by simp_all
  have dc: "map (\<lambda>p. sint (fst p)) (attempts tc)
           = spec_delays (sint start) (sint start) (sint maxd) (map snd (attempts tc))"
    using consul_exec_delays [OF pc assms(1) lt(1) c] assms(5,6) by simp
  have de: "map (\<lambda>p. sint (fst p)) (attempts te)
           = spec_delays (sint start) (sint start) (sint maxd) (map snd (attempts te))"
    using etcd_exec_delays [OF pe assms(1) lt(1) e] assms(8,9) by simp
  have wc: "map sint (failure_waits tc)
           = map (\<lambda>p. sint (fst p) * 1000000) (filter (\<lambda>p. \<not> snd p) (attempts tc))"
    using qc assms(1,2) c by (rule consul_exec_waits)
  have we: "map sint (failure_waits te)
           = map (\<lambda>p. sint (fst p) * 1000000) (filter (\<lambda>p. \<not> snd p) (attempts te))"
    using qe assms(1,2) e by (rule etcd_exec_waits)
  have r: "snd (snd (consul_RegisterService load u opts dc)) = start"
          "snd (snd (etcd_RegisterService load u opts de)) = start"
    using assms(5,8) by (simp_all add: consul_RegisterService_def etcd_RegisterService_def Let_def)
  have cf: "spec_delays (sint start) (sint start) (sint maxd) (replicate k False)
            = map (\<lambda>i. min (sint start * 2 ^ i) (sint maxd)) [0..<k]"
    if "sint start \<le> sint maxd" for k
    using assms(1) that by (rule spec_delays_failures)
  have all_failed: "map (\<lambda>p. sint (fst p) * 1000000) (filter (\<lambda>p. \<not> snd p) as)
                    = map (\<lambda>x. x * 1000000) (map (\<lambda>p. sint (fst p)) as)"
    if "map snd as = replicate k False" for as :: "(int64 \<times> bool) list" and k
  proof -
    from that have "\<forall>p \<in> set as. \<not> snd p"
      by (metis (no_types, lifting) image_iff in_set_replicate list.set_map)
    then have "filter (\<lambda>p. \<not> snd p) as = as" by simp
    then show ?thesis by (simp add: comp_def)
  qed
  have closed: "map (\<lambda>p. sint (fst p)) (attempts t)
                 = map (\<lambda>i. min (sint start * 2 ^ i) (sint maxd)) [0..<k]
               \<and> map sint (failure_waits t)
                 = map (\<lambda>i. min (sint start * 2 ^ i) (sint maxd) * 1000000) [0..<k]"
    if le: "sint start \<le> sint maxd"
      and d: "map (\<lambda>p. sint (fst p)) (attempts t)
           = spec_delays (sint start) (sint start) (sint maxd) (map snd (attempts t))"
      and w: "map sint (failure_waits t)
           = map (\<lambda>p. sint (fst p) * 1000000) (filter (\<lambda>p. \<not> snd p) (attempts t))"
      and f: "map snd (attempts t) = replicate k False" for t k
  proof -
    have 1: "map (\<lambda>p. sint (fst p)) (attempts t)
             = map (\<lambda>i. min (sint start * 2 ^ i) (sint maxd)) [0..<k]"
      using d cf [OF le, of k] f by simp
    have "map sint (failure_waits t)
          = map (\<lambda>x. x * 1000000) (map (\<lambda>p. sint (fst p)) (attempts t))"
      using w all_failed [OF f] by simp
    also have "\<dots> = map (\<lambda>i. min (sint start * 2 ^ i) (sint maxd) * 1000000) [0..<k]"
      unfolding 1 by (simp add: comp_def)
    finally show ?thesis using 1 by simp
  qed
  show ?thesis using r dc de wc we closed [OF _ dc wc] closed [OF _ de we] by simp
qed

theorem retry_delay_sequence_witness:
  "0 \<le> sint (100 :: int64) \<and> sint (100 :: int64) * 1000000 < 2 ^ 63
   \<and> 0 \<le> sint (2000 :: int64) \<and> sint (2000 :: int64) * 1000000 < 2 ^ 63
   \<and> sint (100 :: int64) \<le> sint (2000 :: int64)
   \<and> startRetryDelay (consul_fresh 100 2000 singleton_no) = 100
   \<and> maxRetryDelay (consul_fresh 100 2000 singleton_no) = 2000
   \<and> startRetryDelay (etcd_fresh 100 2000 singleton_no) = 100
   \<and> maxRetryDelay (etcd_fresh 100 2000 singleton_no) = 2000
   \<and> trace_of (consul_exec (replicate 7 (Iterate consul_unreachable))
                 (consul_fresh 100 2000 singleton_no, 100))
      = Inr [Attempt RegisterAttempt 100 False, Sleep 100000000,
             Attempt RegisterAttempt 200 False, Sleep 200000000,
             Attempt RegisterAttempt 400 False, Sleep 400000000,
             Attempt RegisterAttempt 800 False, Sleep 800000000,
             Attempt RegisterAttempt 1600 False, Sleep 1600000000,
             Attempt RegisterAttempt 2000 False, Sleep 2000000000,
             Attempt RegisterAttempt 2000 False, Sleep 2000000000]
   \<and> trace_of (etcd_exec [Iterate etcd_unreachable, Iterate etcd_unreachable]
                 (etcd_fresh 100 2000 singleton_no, 100))
      = Inr [Attempt RegisterAttempt 100 False, Sleep 100000000,
             Attempt RegisterAttempt 200 False, Sleep 200000000]
   \<and> map (\<lambda>i. min (sint (100 :: int64) * 2 ^ i) (sint (2000 :: int64))) [0..<7]
      = [100, 200, 400, 800, 1600, 2000, 2000]
   \<and> map (\<lambda>i. min (sint (100 :: int64) * 2 ^ i) (sint (2000 :: int64)) * 1000000) [0..<7]
      = [100000000, 200000000, 400000000, 800000000, 1600000000, 2000000000, 2000000000]
   \<and> map (\<lambda>i. min (sint (100 :: int64) * 2 ^ i) (sint (2000 :: int64))) [0..<2] = [100, 200]
   \<and> map (\<lambda>i. min (sint (100 :: int64) * 2 ^ i) (sint (2000 :: int64)) * 1000000) [0..<2]
      = [100000000, 200000000]"
proof -
  let ?tc = "[Attempt RegisterAttempt 100 False, Sleep 100000000,
             Attempt RegisterAttempt 200 False, Sleep 200000000,
             Attempt RegisterAttempt 400 False, Sleep 400000000,
             Attempt RegisterAttempt 800 False, Sleep 800000000,
             Attempt RegisterAttempt 1600 False, Sleep 1600000000,
             Attempt RegisterAttempt 2000 False, Sleep 2000000000,
             Attempt RegisterAttempt 2000 False, Sleep 2000000000]"
  let ?te = "[Attempt RegisterAttempt 100 False, Sleep 100000000,
             Attempt RegisterAttempt 200 False, Sleep 200000000]"
  have b: "0 \<le> sint (100 :: int64)" "sint (100 :: int64) * 1000000 < 2 ^ 63"
          "0 \<le> sint (2000 :: int64)" "sint (2000 :: int64) * 1000000 < 2 ^ 63"
    by simp_all
  have le: "sint (100 :: int64) \<le> sint (2000 :: int64)" by simp
  have c: "startRetryDelay (consul_fresh 100 2000 singleton_no) = 100"
          "maxRetryDelay (consul_fresh 100 2000 singleton_no) = 2000"
    by (simp_all add: example_defs)
  have e: "startRetryDelay (etcd_fresh 100 2000 singleton_no) = 100"
          "maxRetryDelay (etcd_fresh 100 2000 singleton_no) = 2000"
    by (simp_all add: example_defs)
  have n7: "replicate 7 (Iterate consul_unreachable)
            = [Iterate consul_unreachable, Iterate consul_unreachable, Iterate consul_unreachable,
               Iterate consul_unreachable, Iterate consul_unreachable, Iterate consul_unreachable,
               Iterate consul_unreachable]"
    by (simp add: numeral_eq_Suc)
  have tc: "trace_of (consul_exec (replicate 7 (Iterate consul_unreachable))
                 (consul_fresh 100 2000 singleton_no, 100)) = Inr ?tc"
    unfolding n7 by (simp add: example_defs loop_defs)
  have te: "trace_of (etcd_exec [Iterate etcd_unreachable, Iterate etcd_unreachable]
                 (etcd_fresh 100 2000 singleton_no, 100)) = Inr ?te"
    by (simp add: example_defs loop_defs)
  have r7: "map snd (attempts ?tc) = replicate 7 False" by (simp add: numeral_eq_Suc)
  have r2: "map snd (attempts ?te) = replicate 2 False" by (simp add: numeral_eq_Suc)
  have a7: "map (\<lambda>p. sint (fst p)) (attempts ?tc) = [100, 200, 400, 800, 1600, 2000, 2000]"
    by simp
  have a2: "map (\<lambda>p. sint (fst p)) (attempts ?te) = [100, 200]"
    by simp
  have w7: "map sint (failure_waits ?tc)
            = [100000000, 200000000, 400000000, 800000000, 1600000000, 2000000000, 2000000000]"
    by simp
  have w2: "map sint (failure_waits ?te) = [100000000, 200000000]"
    by simp
  from retry_delay_sequence [OF b c tc e te]
  have "(\<forall>k. map snd (attempts ?tc) = replicate k False \<longrightarrow>
                 map (\<lambda>p. sint (fst p)) (attempts ?tc)
                 = map (\<lambda>i. min (sint (100 :: int64) * 2 ^ i) (sint (2000 :: int64))) [0..<k]
               \<and> map sint (failure_waits ?tc)
                 = map (\<lambda>i. min (sint (100 :: int64) * 2 ^ i) (sint (2000 :: int64)) * 1000000)
                     [0..<k])"
       "(\<forall>k. map snd (attempts ?te) = replicate k False \<longrightarrow>
                 map (\<lambda>p. sint (fst p)) (attempts ?te)
                 = map (\<lambda>i. min (sint (100 :: int64) * 2 ^ i) (sint (2000 :: int64))) [0..<k]
               \<and> map sint (failure_waits ?te)
                 = map (\<lambda>i. min (sint (100 :: int64) * 2 ^ i) (sint (2000 :: int64)) * 1000000)
                     [0..<k])"
    using le by blast+
  with r7 r2 a7 a2 w7 w2 have
    "map (\<lambda>i. min (sint (100 :: int64) * 2 ^ i) (sint (2000 :: int64))) [0..<7]
      = [100, 200, 400, 800, 1600, 2000, 2000]"
    "map (\<lambda>i. min (sint (100 :: int64) * 2 ^ i) (sint (2000 :: int64)) * 1000000) [0..<7]
      = [100000000, 200000000, 400000000, 800000000, 1600000000, 2000000000, 2000000000]"
    "map (\<lambda>i. min (sint (100 :: int64) * 2 ^ i) (sint (2000 :: int64))) [0..<2] = [100, 200]"
    "map (\<lambda>i. min (sint (100 :: int64) * 2 ^ i) (sint (2000 :: int64)) * 1000000) [0..<2]
      = [100000000, 200000000]"
    by metis+
  with b le c e tc te show ?thesis by blast
qed

text \<open>
  The closed form as stated fails when the start delay is above the maximum: the first
  failure waits the start delay, 5000, and \<open>min (5000 * 2 ^ 0) 2000\<close> is 2000.
\<close>

theorem first_failure_waits_startDelay_above_maxDelay:
  "trace_of (consul_exec [Iterate consul_unreachable, Iterate consul_unreachable]
               (consul_fresh 5000 2000 singleton_no, 5000))
   = Inr [Attempt RegisterAttempt 5000 False, Sleep 5000000000,
          Attempt RegisterAttempt 2000 False, Sleep 2000000000]
   \<and> map (\<lambda>p. sint (fst p))
         (attempts [Attempt RegisterAttempt 5000 False, Sleep 5000000000,
                    Attempt RegisterAttempt 2000 False, Sleep 2000000000])
     \<noteq> map (\<lambda>i. min (sint (5000 :: int64) * 2 ^ i) (sint (2000 :: int64))) [0..<2]"
  by (simp add: example_defs loop_defs upt_rec)

subsection \<open>The gateway watches only grow\<close>

lemma watch_effects_append [simp]: "watch_effects (xs @ ys) = watch_effects xs @ watch_effects ys"
  by (simp add: watch_effects_def)

lemma watch_effects_Nil [simp]: "watch_effects [] = []"
  by (simp add: watch_effects_def)

lemma add_watch_grows:
  assumes "add_watch E ns (gws, effs) = (gws1, effs1)"
  shows "\<exists>added. gws1 = gws @ added \<and> effs1 = effs @ watch_effects added
           \<and> (\<forall>w \<in> set added. gatewayURL w = fst (GetString E (gatewayID w) ''gatewayUrl''))
           \<and> (distinct (map gatewayID gws) \<longrightarrow> distinct (map gatewayID gws1))
           \<and> ns \<in> gatewayID ` set gws1"
proof (cases "list_ex (\<lambda>w. gatewayID w = ns) gws")
  case True
  with assms have "gws1 = gws" "effs1 = effs" by (simp_all add: add_watch_def)
  moreover from True have "ns \<in> gatewayID ` set gws" by (auto simp: list_ex_iff)
  ultimately show ?thesis by (intro exI [of _ "[]"]) simp
next
  case False
  let ?w = "\<lparr>gatewayID = ns, gatewayURL = fst (GetString E ns ''gatewayUrl'')\<rparr>"
  from False assms have g: "gws1 = gws @ [?w]"
    and e: "effs1 = effs @ [ConfigRead ns ''gatewayUrl'', ConfigSubscribe ns ''gatewayUrl'']"
    by (simp_all add: add_watch_def Let_def)
  from False have "ns \<notin> gatewayID ` set gws" by (auto simp: list_ex_iff)
  with g e show ?thesis by (intro exI [of _ "[?w]"]) (simp add: watch_effects_def)
qed

lemma grown_refl: "grown E s s"
  by (auto simp: grown_def intro: exI [of _ "[]"])

lemma grown_trans:
  assumes "grown E a b" and "grown E b c"
  shows "grown E a c"
proof -
  from assms(1) obtain x where x: "fst b = fst a @ x" "snd b = snd a @ watch_effects x"
     "\<forall>w \<in> set x. gatewayURL w = fst (GetString E (gatewayID w) ''gatewayUrl'')"
     "distinct (map gatewayID (fst a)) \<longrightarrow> distinct (map gatewayID (fst b))"
    unfolding grown_def by blast
  from assms(2) obtain y where y: "fst c = fst b @ y" "snd c = snd b @ watch_effects y"
     "\<forall>w \<in> set y. gatewayURL w = fst (GetString E (gatewayID w) ''gatewayUrl'')"
     "distinct (map gatewayID (fst b)) \<longrightarrow> distinct (map gatewayID (fst c))"
    unfolding grown_def by blast
  have "fst c = fst a @ (x @ y)" using x(1) y(1) by simp
  moreover have "snd c = snd a @ watch_effects (x @ y)" using x(2) y(2) by simp
  moreover have "\<forall>w \<in> set (x @ y). gatewayURL w = fst (GetString E (gatewayID w) ''gatewayUrl'')"
    using x(3) y(3) by auto
  moreover have "distinct (map gatewayID (fst a)) \<longrightarrow> distinct (map gatewayID (fst c))"
    using x(4) y(4) by blast
  ultimately show ?thesis unfolding grown_def by blast
qed

lemma add_watch_grown:
  assumes "add_watch E ns (gws, effs) = (gws1, effs1)"
  shows "grown E (gws, effs) (gws1, effs1)"
  using add_watch_grows [OF assms] unfolding grown_def by auto

lemma consul_entries_grown:
  assumes "consul_entries E opts es (dis, gws, effs) = (p, (dis1, gws1, effs1))"
  shows "grown E (gws, effs) (gws1, effs1)"
  using assms
proof (induction es arbitrary: dis gws effs)
  case Nil
  then show ?case by (simp add: grown_refl)
next
  case (Cons e es)
  show ?case
  proof (cases "consul_scan_tags E (Service_Tags e) (Version_zero E, False, ''http'')")
    case (Inl q)
    with Cons.prems show ?thesis by (simp add: grown_refl)
  next
    case (Inr r)
    obtain ver ok proto where r: "r = (ver, ok, proto)" by (cases r)
    show ?thesis
    proof (cases ok)
      case False
      with Inr r Cons.prems have "consul_entries E opts es (dis, gws, effs) = (p, (dis1, gws1, effs1))"
        by simp
      then show ?thesis by (rule Cons.IH)
    next
      case True
      obtain g2 e2 where a: "add_watch E (watcherNamespace E opts ver) (gws, effs) = (g2, e2)"
        by (cases "add_watch E (watcherNamespace E opts ver) (gws, effs)")
      with True Inr r Cons.prems obtain inst where
        "consul_entries E opts es (dis @ [inst], g2, e2) = (p, (dis1, gws1, effs1))"
        by (simp add: Let_def)
      then have "grown E (g2, e2) (gws1, effs1)" by (rule Cons.IH)
      with add_watch_grown [OF a] show ?thesis by (rule grown_trans)
    qed
  qed
qed

lemma etcd_instances_grown:
  assumes "etcd_instances E opts cv ns (dis, gws, effs) = (dis1, gws1, effs1)"
  shows "grown E (gws, effs) (gws1, effs1)"
  using assms
proof (induction ns arbitrary: dis gws effs)
  case Nil
  then show ?case by (simp add: grown_refl)
next
  case (Cons n ns)
  show ?case
  proof (cases "ParseTolerant E cv")
    case (Inl err)
    with Cons.prems show ?thesis by (simp add: grown_refl)
  next
    case (Inr ver)
    obtain g2 e2 where a: "add_watch E (watcherNamespace E opts ver) (gws, effs) = (g2, e2)"
      by (cases "add_watch E (watcherNamespace E opts ver) (gws, effs)")
    with Inr Cons.prems obtain inst where
      "etcd_instances E opts cv ns (dis @ [inst], g2, e2) = (dis1, gws1, effs1)"
      by (simp add: Let_def)
    then have "grown E (g2, e2) (gws1, effs1)" by (rule Cons.IH)
    with add_watch_grown [OF a] show ?thesis by (rule grown_trans)
  qed
qed

lemma etcd_versions_grown:
  assumes "etcd_versions E opts vs (dis, gws, effs) = (p, (dis1, gws1, effs1))"
  shows "grown E (gws, effs) (gws1, effs1)"
  using assms
proof (induction vs arbitrary: dis gws effs)
  case Nil
  then show ?case by (simp add: grown_refl)
next
  case (Cons v vs)
  show ?case
  proof (cases "find (\<lambda>n. Base (Key n) = ''instances'') (Nodes v)")
    case None
    with Cons.prems show ?thesis by (simp add: grown_refl)
  next
    case (Some insts)
    obtain d2 g2 e2 where
      i: "etcd_instances E opts (Base (Key v)) (Nodes insts) (dis, gws, effs) = (d2, g2, e2)"
      by (cases "etcd_instances E opts (Base (Key v)) (Nodes insts) (dis, gws, effs)")
    with Some Cons.prems have "etcd_versions E opts vs (d2, g2, e2) = (p, (dis1, gws1, effs1))"
      by simp
    then have "grown E (g2, e2) (gws1, effs1)" by (rule Cons.IH)
    with etcd_instances_grown [OF i] show ?thesis by (rule grown_trans)
  qed
qed

subsection \<open>What a DiscoverService call leaves behind\<close>

lemma pick_and_return_result:
  assumes "pick_and_return E d opts dis effs = (r, d1, effs1)"
  shows "effs1 = effs \<and> gatewayURLs d1 = gatewayURLs d
       \<and> (\<forall>url. r = Inr (url, None) \<longrightarrow> lastKnownService d1 = url)
       \<and> (\<forall>p. r \<noteq> Inl p)"
proof -
  obtain service e where p: "pickRandomServiceInstance E dis (gatewayURLs d) opts
             (lastKnownService d) = (service, e)"
    by (cases "pickRandomServiceInstance E dis (gatewayURLs d) opts (lastKnownService d)")
  show ?thesis
  proof (cases e)
    case None
    with p assms show ?thesis by (auto simp: pick_and_return_def)
  next
    case (Some err)
    with p assms show ?thesis by (cases "service = []") (auto simp: pick_and_return_def)
  qed
qed

lemma query_failed_result:
  assumes "query_failed d err = (r, d1, effs1)"
  shows "effs1 = [] \<and> d1 = d
       \<and> (\<forall>url. r = Inr (url, None) \<longrightarrow> lastKnownService d1 = url)
       \<and> (\<forall>p. r \<noteq> Inl p)"
  using assms by (cases "lastKnownService d = []") (auto simp: query_failed_def)

lemma consul_DiscoverService_result:
  assumes "consul_DiscoverService E c d o0 = (r, d1, effs)"
  shows "grown E (gatewayURLs d, []) (gatewayURLs d1, effs)
       \<and> (\<forall>url. r = Inr (url, None) \<longrightarrow> lastKnownService d1 = url)"
proof (cases "Health_Service c (Environment (fillDefaultDiscoverOptions E o0) @ ''-''
                 @ Value' (fillDefaultDiscoverOptions E o0)) [] True")
  case (Inl err)
  with assms have "query_failed d err = (r, d1, effs)"
    by (simp add: consul_DiscoverService_def Let_def)
  from query_failed_result [OF this] show ?thesis by (auto simp: grown_refl)
next
  case (Inr es)
  obtain p dis gws effs1 where
    l: "consul_entries E (fillDefaultDiscoverOptions E o0) es ([], gatewayURLs d, []) = (p, (dis, gws, effs1))"
    by (cases "consul_entries E (fillDefaultDiscoverOptions E o0) es ([], gatewayURLs d, [])") auto
  have g: "grown E (gatewayURLs d, []) (gws, effs1)"
    using l by (rule consul_entries_grown)
  show ?thesis
  proof (cases p)
    case (Some q)
    with Inr l assms have "r = Inl q" "d1 = d\<lparr>gatewayURLs := gws\<rparr>" "effs = effs1"
      by (simp_all add: consul_DiscoverService_def Let_def)
    with g show ?thesis by simp
  next
    case None
    with Inr l assms have
      "pick_and_return E (d\<lparr>gatewayURLs := gws\<rparr>) (fillDefaultDiscoverOptions E o0) dis effs1
       = (r, d1, effs)"
      by (simp add: consul_DiscoverService_def Let_def)
    from pick_and_return_result [OF this] g show ?thesis by simp
  qed
qed

lemma etcd_DiscoverService_result:
  assumes "etcd_DiscoverService E c d o0 = (r, d1, effs)"
  shows "grown E (gatewayURLs d, []) (gatewayURLs d1, effs)
       \<and> (\<forall>url. r = Inr (url, None) \<longrightarrow> lastKnownService d1 = url)"
proof (cases "Get_Recursive c (''environments/'' @ Environment (fillDefaultDiscoverOptions E o0)
                 @ ''/services/'' @ Value' (fillDefaultDiscoverOptions E o0) @ ''/'')")
  case (Inl err)
  with assms have "query_failed d err = (r, d1, effs)"
    by (simp add: etcd_DiscoverService_def Let_def)
  from query_failed_result [OF this] show ?thesis by (auto simp: grown_refl)
next
  case (Inr resp)
  obtain p dis gws effs1 where
    l: "etcd_versions E (fillDefaultDiscoverOptions E o0) (Nodes resp) ([], gatewayURLs d, []) = (p, (dis, gws, effs1))"
    by (cases "etcd_versions E (fillDefaultDiscoverOptions E o0) (Nodes resp) ([], gatewayURLs d, [])") auto
  have g: "grown E (gatewayURLs d, []) (gws, effs1)"
    using l by (rule etcd_versions_grown)
  show ?thesis
  proof (cases p)
    case (Some q)
    with Inr l assms have "r = Inl q" "d1 = d\<lparr>gatewayURLs := gws\<rparr>" "effs = effs1"
      by (simp_all add: etcd_DiscoverService_def Let_def)
    with g show ?thesis by simp
  next
    case None
    with Inr l assms have
      "pick_and_return E (d\<lparr>gatewayURLs := gws\<rparr>) (fillDefaultDiscoverOptions E o0) dis effs1
       = (r, d1, effs)"
      by (simp add: etcd_DiscoverService_def Let_def)
    from pick_and_return_result [OF this] g show ?thesis by simp
  qed
qed

lemma grown_take_drop:
  assumes "grown E (gws, []) (gws1, effs)"
  shows "take (length gws) gws1 = gws
       \<and> effs = watch_effects (drop (length gws) gws1)
       \<and> (\<forall>w \<in> set (drop (length gws) gws1).
             gatewayURL w = fst (GetString E (gatewayID w) ''gatewayUrl''))
       \<and> (distinct (map gatewayID gws) \<longrightarrow> distinct (map gatewayID gws1))"
  using assms unfolding grown_def by auto

lemma gatewayUrl_changed_ids:
  "map gatewayID (gatewayUrl_changed ns v gws) = map gatewayID gws"
  by (induction gws) auto

text \<open>Every instance a call has parsed has a watch for its namespace afterwards.\<close>

lemma add_watch_covers:
  assumes "add_watch E ns (gws, effs) = (gws1, effs1)"
  shows "ns \<in> gatewayID ` set gws1 \<and> gatewayID ` set gws \<subseteq> gatewayID ` set gws1"
  using add_watch_grows [OF assms] by auto

lemma consul_entries_covered:
  assumes "consul_entries E opts es (dis, gws, effs) = (p, (dis1, gws1, effs1))"
      and "\<forall>i \<in> set dis. watcherNamespace E opts (version i) \<in> gatewayID ` set gws"
  shows "\<forall>i \<in> set dis1. watcherNamespace E opts (version i) \<in> gatewayID ` set gws1"
  using assms
proof (induction es arbitrary: dis gws effs)
  case Nil
  then show ?case by simp
next
  case (Cons e es)
  show ?case
  proof (cases "consul_scan_tags E (Service_Tags e) (Version_zero E, False, ''http'')")
    case (Inl q)
    with Cons.prems show ?thesis by simp
  next
    case (Inr r)
    obtain ver ok proto where r: "r = (ver, ok, proto)" by (cases r)
    show ?thesis
    proof (cases ok)
      case False
      with Inr r Cons.prems(1) have "consul_entries E opts es (dis, gws, effs) = (p, (dis1, gws1, effs1))"
        by simp
      then show ?thesis using Cons.prems(2) by (rule Cons.IH)
    next
      case True
      obtain g2 e2 where a: "add_watch E (watcherNamespace E opts ver) (gws, effs) = (g2, e2)"
        by (cases "add_watch E (watcherNamespace E opts ver) (gws, effs)")
      with True Inr r Cons.prems(1) obtain inst where
        i: "consul_entries E opts es (dis @ [inst], g2, e2) = (p, (dis1, gws1, effs1))"
           "version inst = ver"
        by (simp add: Let_def)
      have "\<forall>i \<in> set (dis @ [inst]). watcherNamespace E opts (version i) \<in> gatewayID ` set g2"
        using add_watch_covers [OF a] Cons.prems(2) i(2) by auto
      with i(1) show ?thesis by (rule Cons.IH)
    qed
  qed
qed

lemma etcd_instances_covered:
  assumes "etcd_instances E opts cv ns (dis, gws, effs) = (dis1, gws1, effs1)"
      and "\<forall>i \<in> set dis. watcherNamespace E opts (version i) \<in> gatewayID ` set gws"
  shows "\<forall>i \<in> set dis1. watcherNamespace E opts (version i) \<in> gatewayID ` set gws1"
  using assms
proof (induction ns arbitrary: dis gws effs)
  case Nil
  then show ?case by simp
next
  case (Cons n ns)
  show ?case
  proof (cases "ParseTolerant E cv")
    case (Inl err)
    with Cons.prems show ?thesis by simp
  next
    case (Inr ver)
    obtain g2 e2 where a: "add_watch E (watcherNamespace E opts ver) (gws, effs) = (g2, e2)"
      by (cases "add_watch E (watcherNamespace E opts ver) (gws, effs)")
    with Inr Cons.prems(1) obtain inst where
      i: "etcd_instances E opts cv ns (dis @ [inst], g2, e2) = (dis1, gws1, effs1)"
         "version inst = ver"
      by (simp add: Let_def)
    have "\<forall>i \<in> set (dis @ [inst]). watcherNamespace E opts (version i) \<in> gatewayID ` set g2"
      using add_watch_covers [OF a] Cons.prems(2) i(2) by auto
    with i(1) show ?thesis by (rule Cons.IH)
  qed
qed

lemma etcd_versions_covered:
  assumes "etcd_versions E opts vs (dis, gws, effs) = (p, (dis1, gws1, effs1))"
      and "\<forall>i \<in> set dis. watcherNamespace E opts (version i) \<in> gatewayID ` set gws"
  shows "\<forall>i \<in> set dis1. watcherNamespace E opts (version i) \<in> gatewayID ` set gws1"
  using assms
proof (induction vs arbitrary: dis gws effs)
  case Nil
  then show ?case by simp
next
  case (Cons v vs)
  show ?case
  proof (cases "find (\<lambda>n. Base (Key n) = ''instances'') (Nodes v)")
    case None
    with Cons.prems show ?thesis by simp
  next
    case (Some insts)
    obtain d2 g2 e2 where
      i: "etcd_instances E opts (Base (Key v)) (Nodes insts) (dis, gws, effs) = (d2, g2, e2)"
      by (cases "etcd_instances E opts (Base (Key v)) (Nodes insts) (dis, gws, effs)")
    with Some Cons.prems(1) have n: "etcd_versions E opts vs (d2, g2, e2) = (p, (dis1, gws1, effs1))"
      by simp
    from etcd_instances_covered [OF i Cons.prems(2)] n show ?thesis by (rule Cons.IH [rotated])
  qed
qed

subsection \<open>Unfolding the discovery examples\<close>

lemmas discover_defs =
  consul_DiscoverService_def etcd_DiscoverService_def pick_and_return_def query_failed_def
  add_watch_def watcherNamespace_def HasPrefix_def spec_fillDefaultDiscoverOptions_def
  spec_pickRandomServiceInstance_def example_parse_def example_string_def example_resolve_def
  example_config_def example_E_def etcd_svc_tree_def etcd_with_svc_def discover_svc_def
  discover_other_def discover_svc_2_def consul_after_svc_def etcd_after_svc_def FormatInt_def FormatNat.simps
  digit_def Base_def last_element_def strip_trailing_slashes_def watch_effects_def Let_def

lemma consul_after_svc_eq:
  "consul_DiscoverService example_E consul_one_healthy
     (newConsulDiscoverySource 500 900000 None) discover_svc
   = (Inr (''http://10.0.0.5:8080'', None), consul_after_svc,
      [ConfigRead ''/environments/dev/services/svc/1.0.0'' ''gatewayUrl'',
       ConfigSubscribe ''/environments/dev/services/svc/1.0.0'' ''gatewayUrl''])"
  by (simp add: discover_defs example_defs)

lemma etcd_after_svc_eq:
  "etcd_DiscoverService example_E etcd_with_svc
     (newEtcdDiscoverySource 500 900000) discover_svc
   = (Inr (''http://10.0.0.5:8080'', None), etcd_after_svc,
      [ConfigRead ''/environments/dev/services/svc/1.0.0'' ''gatewayUrl'',
       ConfigSubscribe ''/environments/dev/services/svc/1.0.0'' ''gatewayUrl''])"
  by (simp add: discover_defs example_defs)

subsection \<open>The last known service\<close>

text \<open>
  C7, as the code has it. \<open>lastKnownService\<close> is one string of the source, whatever
  service was asked for, and the empty string stands for none. If a \<open>DiscoverService\<close>
  call returns a URL and no error, and the backend query of a later call on the resulting
  source fails, then the later call, whatever service, environment or version it asks for,
  changes nothing and returns that same URL and no error when the URL is not empty, and
  the empty string with the query's error when it is empty. This holds for the Consul and
  for the etcd source and for any \<open>pickRandomServiceInstance\<close>.
\<close>

theorem lastKnownService_shared_across_service_names:
  assumes "consul_DiscoverService E c1 dc optsA = (Inr (urlc, None), dc1, effc)"
      and "Health_Service c2
             (Environment (fillDefaultDiscoverOptions E optsB) @ ''-''
                @ Value' (fillDefaultDiscoverOptions E optsB)) [] True = Inl errc"
      and "etcd_DiscoverService E e1 de optsA = (Inr (urle, None), de1, effe)"
      and "Get_Recursive e2
             (''environments/'' @ Environment (fillDefaultDiscoverOptions E optsB)
                @ ''/services/'' @ Value' (fillDefaultDiscoverOptions E optsB) @ ''/'') = Inl erre"
  shows "consul_DiscoverService E c2 dc1 optsB
         = ((if urlc \<noteq> [] then Inr (urlc, None) else Inr ([], Some errc)), dc1, [])
       \<and> etcd_DiscoverService E e2 de1 optsB
         = ((if urle \<noteq> [] then Inr (urle, None) else Inr ([], Some erre)), de1, [])"
proof -
  from consul_DiscoverService_result [OF assms(1)] have "lastKnownService dc1 = urlc" by simp
  with assms(2) have c: "consul_DiscoverService E c2 dc1 optsB
         = ((if urlc \<noteq> [] then Inr (urlc, None) else Inr ([], Some errc)), dc1, [])"
    by (simp add: consul_DiscoverService_def query_failed_def Let_def)
  from etcd_DiscoverService_result [OF assms(3)] have "lastKnownService de1 = urle" by simp
  with assms(4) have "etcd_DiscoverService E e2 de1 optsB
         = ((if urle \<noteq> [] then Inr (urle, None) else Inr ([], Some erre)), de1, [])"
    by (simp add: etcd_DiscoverService_def query_failed_def Let_def)
  with c show ?thesis by simp
qed

theorem lastKnownService_shared_across_service_names_witness:
  "consul_DiscoverService example_E consul_one_healthy
       (newConsulDiscoverySource 500 900000 None) discover_svc
     = (Inr (''http://10.0.0.5:8080'', None), consul_after_svc,
        [ConfigRead ''/environments/dev/services/svc/1.0.0'' ''gatewayUrl'',
         ConfigSubscribe ''/environments/dev/services/svc/1.0.0'' ''gatewayUrl''])
   \<and> Health_Service consul_unreachable ''dev-other'' [] True = Inl (Error ''connection refused'')
   \<and> etcd_DiscoverService example_E etcd_with_svc
       (newEtcdDiscoverySource 500 900000) discover_svc
     = (Inr (''http://10.0.0.5:8080'', None), etcd_after_svc,
        [ConfigRead ''/environments/dev/services/svc/1.0.0'' ''gatewayUrl'',
         ConfigSubscribe ''/environments/dev/services/svc/1.0.0'' ''gatewayUrl''])
   \<and> Get_Recursive etcd_unreachable ''environments/dev/services/other/''
       = Inl (Error ''connection refused'')
   \<and> Value' discover_other \<noteq> Value' discover_svc
   \<and> consul_DiscoverService example_E consul_unreachable consul_after_svc discover_other
     = (Inr (''http://10.0.0.5:8080'', None), consul_after_svc, [])
   \<and> etcd_DiscoverService example_E etcd_unreachable etcd_after_svc discover_other
     = (Inr (''http://10.0.0.5:8080'', None), etcd_after_svc, [])"
proof -
  have q: "Environment (fillDefaultDiscoverOptions example_E discover_other) @ ''-''
             @ Value' (fillDefaultDiscoverOptions example_E discover_other) = ''dev-other''"
          "''environments/'' @ Environment (fillDefaultDiscoverOptions example_E discover_other)
             @ ''/services/'' @ Value' (fillDefaultDiscoverOptions example_E discover_other) @ ''/''
           = ''environments/dev/services/other/''"
    by (simp_all add: example_E_def spec_fillDefaultDiscoverOptions_def discover_other_def)
  have hc: "Health_Service consul_unreachable
             (Environment (fillDefaultDiscoverOptions example_E discover_other) @ ''-''
                @ Value' (fillDefaultDiscoverOptions example_E discover_other)) [] True
            = Inl (Error ''connection refused'')"
    by (simp add: consul_unreachable_def)
  have he: "Get_Recursive etcd_unreachable
             (''environments/'' @ Environment (fillDefaultDiscoverOptions example_E discover_other)
                @ ''/services/'' @ Value' (fillDefaultDiscoverOptions example_E discover_other) @ ''/'')
            = Inl (Error ''connection refused'')"
    by (simp add: etcd_unreachable_def)
  have v: "Value' discover_other \<noteq> Value' discover_svc"
    by (simp add: discover_other_def discover_svc_def)
  from lastKnownService_shared_across_service_names
         [OF consul_after_svc_eq hc etcd_after_svc_eq he]
  show ?thesis using consul_after_svc_eq etcd_after_svc_eq hc he v unfolding q by simp
qed

text \<open>
  As the specification states it, the property fails when the discovered URL is empty: an
  etcd instance registered without a base URL has an empty \<open>url\<close>, its discovery with
  direct access returns the empty string and no error, and the failed query for another
  service then returns the error, not a URL. What is returned for the instance is decided
  by \<open>pickRandomServiceInstance\<close> as modelled from the specification.
\<close>

theorem no_fallback_after_discovering_an_empty_URL:
  "etcd_DiscoverService example_E etcd_with_empty_url
       (newEtcdDiscoverySource 500 900000) discover_svc
     = (Inr ([], None), etcd_after_empty_url,
        [ConfigRead ''/environments/dev/services/svc/1.0.0'' ''gatewayUrl'',
         ConfigSubscribe ''/environments/dev/services/svc/1.0.0'' ''gatewayUrl''])
   \<and> etcd_DiscoverService example_E etcd_unreachable etcd_after_empty_url discover_other
     = (Inr ([], Some (Error ''connection refused'')), etcd_after_empty_url, [])"
  by (simp add: discover_defs example_defs etcd_empty_url_tree_def etcd_with_empty_url_def
      etcd_after_empty_url_def)

subsection \<open>The gateway watch cache\<close>

text \<open>
  Each appended watch accounts for exactly one read and one subscription; a namespace that
  had a watch accounts for none. What the loop leaves is what the call leaves. Two
  versions that print differently have two watches.
\<close>

lemma count_watch_effects:
  "count_list (watch_effects ws) (ConfigRead ns ''gatewayUrl'') = count_list (map gatewayID ws) ns"
  "count_list (watch_effects ws) (ConfigSubscribe ns ''gatewayUrl'') = count_list (map gatewayID ws) ns"
  by (induction ws) (auto simp: watch_effects_def)

lemma set_watch_effects:
  "e \<in> set (watch_effects ws) \<Longrightarrow>
     \<exists>w \<in> set ws. e = ConfigRead (gatewayID w) ''gatewayUrl''
                \<or> e = ConfigSubscribe (gatewayID w) ''gatewayUrl''"
  by (auto simp: watch_effects_def)

lemma distinct_count_one:
  assumes "distinct xs" and "x \<in> set xs"
  shows "count_list xs x = 1"
  using assms by (induction xs) auto

lemma grown_reads:
  assumes g: "grown E (gws, []) (gws1, effs)" and d: "distinct (map gatewayID gws)"
  shows "(\<forall>ns \<in> gatewayID ` set gws.
            ConfigRead ns ''gatewayUrl'' \<notin> set effs \<and> ConfigSubscribe ns ''gatewayUrl'' \<notin> set effs)
       \<and> (\<forall>w \<in> set (drop (length gws) gws1).
            count_list effs (ConfigRead (gatewayID w) ''gatewayUrl'') = 1
          \<and> count_list effs (ConfigSubscribe (gatewayID w) ''gatewayUrl'') = 1)"
proof -
  from g obtain added where a: "gws1 = gws @ added" "effs = watch_effects added"
    and dd: "distinct (map gatewayID gws) \<longrightarrow> distinct (map gatewayID gws1)"
    unfolding grown_def by auto
  from dd d a(1) have dist: "distinct (map gatewayID gws @ map gatewayID added)" by simp
  have dr: "drop (length gws) gws1 = added" using a(1) by simp
  have old: "ConfigRead ns ''gatewayUrl'' \<notin> set effs \<and> ConfigSubscribe ns ''gatewayUrl'' \<notin> set effs"
    if "ns \<in> gatewayID ` set gws" for ns
  proof -
    from that dist have "ns \<notin> gatewayID ` set added" by auto
    then show ?thesis unfolding a(2) by (auto dest: set_watch_effects)
  qed
  have new: "count_list effs (ConfigRead (gatewayID w) ''gatewayUrl'') = 1
          \<and> count_list effs (ConfigSubscribe (gatewayID w) ''gatewayUrl'') = 1"
    if "w \<in> set added" for w
  proof -
    from dist have "distinct (map gatewayID added)" by simp
    moreover from that have "gatewayID w \<in> set (map gatewayID added)" by simp
    ultimately have "count_list (map gatewayID added) (gatewayID w) = 1"
      by (rule distinct_count_one)
    then show ?thesis unfolding a(2) by (simp add: count_watch_effects)
  qed
  from old new show ?thesis unfolding dr by blast
qed

lemma consul_DiscoverService_loop:
  assumes "Health_Service c (Environment (fillDefaultDiscoverOptions E o0) @ ''-''
                 @ Value' (fillDefaultDiscoverOptions E o0)) [] True = Inr es"
      and "consul_entries E (fillDefaultDiscoverOptions E o0) es ([], gatewayURLs d, [])
           = (p, (dis, gws, effs))"
      and "consul_DiscoverService E c d o0 = (r, d1, effs1)"
  shows "gatewayURLs d1 = gws \<and> effs1 = effs"
proof (cases p)
  case (Some q)
  with assms show ?thesis by (auto simp: consul_DiscoverService_def Let_def)
next
  case None
  with assms have
    "pick_and_return E (d\<lparr>gatewayURLs := gws\<rparr>) (fillDefaultDiscoverOptions E o0) dis effs
     = (r, d1, effs1)"
    by (simp add: consul_DiscoverService_def Let_def)
  from pick_and_return_result [OF this] show ?thesis by simp
qed

lemma etcd_DiscoverService_loop:
  assumes "Get_Recursive c (''environments/'' @ Environment (fillDefaultDiscoverOptions E o0)
                 @ ''/services/'' @ Value' (fillDefaultDiscoverOptions E o0) @ ''/'') = Inr resp"
      and "etcd_versions E (fillDefaultDiscoverOptions E o0) (Nodes resp) ([], gatewayURLs d, [])
           = (p, (dis, gws, effs))"
      and "etcd_DiscoverService E c d o0 = (r, d1, effs1)"
  shows "gatewayURLs d1 = gws \<and> effs1 = effs"
proof (cases p)
  case (Some q)
  with assms show ?thesis by (auto simp: etcd_DiscoverService_def Let_def)
next
  case None
  with assms have
    "pick_and_return E (d\<lparr>gatewayURLs := gws\<rparr>) (fillDefaultDiscoverOptions E o0) dis effs
     = (r, d1, effs1)"
    by (simp add: etcd_DiscoverService_def Let_def)
  from pick_and_return_result [OF this] show ?thesis by simp
qed

lemma covered_two_versions:
  assumes c: "\<forall>i \<in> set dis. watcherNamespace E opts (version i) \<in> gatewayID ` set gws"
  shows "\<forall>i \<in> set dis. \<forall>j \<in> set dis.
           Version_String E (version i) \<noteq> Version_String E (version j) \<longrightarrow>
           (\<exists>w \<in> set gws. \<exists>w' \<in> set gws. w \<noteq> w'
              \<and> gatewayID w = ''/environments/'' @ Environment opts @ ''/services/''
                    @ Value' opts @ ''/'' @ Version_String E (version i)
              \<and> gatewayID w' = ''/environments/'' @ Environment opts @ ''/services/''
                    @ Value' opts @ ''/'' @ Version_String E (version j))"
proof (intro ballI impI)
  fix i j
  assume i: "i \<in> set dis" and j: "j \<in> set dis"
    and n: "Version_String E (version i) \<noteq> Version_String E (version j)"
  from c i obtain w where w: "w \<in> set gws" "gatewayID w = watcherNamespace E opts (version i)"
    by force
  from c j obtain w' where w': "w' \<in> set gws" "gatewayID w' = watcherNamespace E opts (version j)"
    by force
  from n w(2) w'(2) have "w \<noteq> w'" by (auto simp: watcherNamespace_def)
  with w w' show "\<exists>w \<in> set gws. \<exists>w' \<in> set gws. w \<noteq> w'
              \<and> gatewayID w = ''/environments/'' @ Environment opts @ ''/services/''
                    @ Value' opts @ ''/'' @ Version_String E (version i)
              \<and> gatewayID w' = ''/environments/'' @ Environment opts @ ''/services/''
                    @ Value' opts @ ''/'' @ Version_String E (version j)"
    unfolding watcherNamespace_def by blast
qed

text \<open>
  C8. For both sources and every \<open>DiscoverService\<close> call, also one that panics: if the
  ids of the watches were distinct before the call they are distinct after it (at most one
  watch per namespace, as holds from construction on); the watches of before are still
  there, unchanged and in place, so none is removed; what the call does to the
  configuration is exactly one read of \<open>gatewayUrl\<close> and one subscription for each watch
  it has appended, and no read and no subscription for a namespace that had a watch; each
  appended watch holds the value read for its namespace. The namespace of a parsed
  instance is \<open>/environments/{env}/services/{name}/{version}\<close> with the instance's own
  version: every parsed instance has a watch with that id afterwards, and two parsed
  instances whose versions print differently have two different watches. When the query
  succeeds, the watches and effects the loop leaves are those of the call. The
  subscription's callback changes no id. Constructing the configuration utility, which the
  code does for every instance, is not counted as a read.
\<close>

theorem gateway_watch_cache_grows_by_new_namespaces:
  assumes "distinct (map gatewayID (gatewayURLs dc))"
      and "consul_DiscoverService E cc dc optsc = (rc, dc1, effc)"
      and "consul_entries E optsc' esc ([], gatewayURLs dc, []) = (pc, (disc, gwsc, effsc))"
      and "distinct (map gatewayID (gatewayURLs de))"
      and "etcd_DiscoverService E ec de optse = (re, de1, effe)"
      and "etcd_versions E optse' vse ([], gatewayURLs de, []) = (pe, (dise, gwse, effse))"
  shows "distinct (map gatewayID (gatewayURLs dc1))
       \<and> take (length (gatewayURLs dc)) (gatewayURLs dc1) = gatewayURLs dc
       \<and> effc = watch_effects (drop (length (gatewayURLs dc)) (gatewayURLs dc1))
       \<and> (\<forall>w \<in> set (drop (length (gatewayURLs dc)) (gatewayURLs dc1)).
             gatewayURL w = fst (GetString E (gatewayID w) ''gatewayUrl''))
       \<and> (\<forall>i \<in> set disc. watcherNamespace E optsc' (version i) \<in> gatewayID ` set gwsc)
       \<and> distinct (map gatewayID (gatewayURLs de1))
       \<and> take (length (gatewayURLs de)) (gatewayURLs de1) = gatewayURLs de
       \<and> effe = watch_effects (drop (length (gatewayURLs de)) (gatewayURLs de1))
       \<and> (\<forall>w \<in> set (drop (length (gatewayURLs de)) (gatewayURLs de1)).
             gatewayURL w = fst (GetString E (gatewayID w) ''gatewayUrl''))
       \<and> (\<forall>i \<in> set dise. watcherNamespace E optse' (version i) \<in> gatewayID ` set gwse)
       \<and> map gatewayID (gatewayUrl_changed ns v (gatewayURLs dc1)) = map gatewayID (gatewayURLs dc1)
       \<and> map gatewayID (gatewayUrl_changed ns v (gatewayURLs de1)) = map gatewayID (gatewayURLs de1)
       \<and> (\<forall>n \<in> gatewayID ` set (gatewayURLs dc).
             ConfigRead n ''gatewayUrl'' \<notin> set effc \<and> ConfigSubscribe n ''gatewayUrl'' \<notin> set effc)
       \<and> (\<forall>w \<in> set (drop (length (gatewayURLs dc)) (gatewayURLs dc1)).
             count_list effc (ConfigRead (gatewayID w) ''gatewayUrl'') = 1
           \<and> count_list effc (ConfigSubscribe (gatewayID w) ''gatewayUrl'') = 1)
       \<and> (\<forall>n \<in> gatewayID ` set (gatewayURLs de).
             ConfigRead n ''gatewayUrl'' \<notin> set effe \<and> ConfigSubscribe n ''gatewayUrl'' \<notin> set effe)
       \<and> (\<forall>w \<in> set (drop (length (gatewayURLs de)) (gatewayURLs de1)).
             count_list effe (ConfigRead (gatewayID w) ''gatewayUrl'') = 1
           \<and> count_list effe (ConfigSubscribe (gatewayID w) ''gatewayUrl'') = 1)
       \<and> (\<forall>i \<in> set disc.
             ''/environments/'' @ Environment optsc' @ ''/services/'' @ Value' optsc' @ ''/''
               @ Version_String E (version i) \<in> gatewayID ` set gwsc)
       \<and> (\<forall>i \<in> set dise.
             ''/environments/'' @ Environment optse' @ ''/services/'' @ Value' optse' @ ''/''
               @ Version_String E (version i) \<in> gatewayID ` set gwse)
       \<and> (\<forall>i \<in> set disc. \<forall>j \<in> set disc.
             Version_String E (version i) \<noteq> Version_String E (version j) \<longrightarrow>
             (\<exists>w \<in> set gwsc. \<exists>w' \<in> set gwsc. w \<noteq> w'
                \<and> gatewayID w = ''/environments/'' @ Environment optsc' @ ''/services/''
                      @ Value' optsc' @ ''/'' @ Version_String E (version i)
                \<and> gatewayID w' = ''/environments/'' @ Environment optsc' @ ''/services/''
                      @ Value' optsc' @ ''/'' @ Version_String E (version j)))
       \<and> (\<forall>i \<in> set dise. \<forall>j \<in> set dise.
             Version_String E (version i) \<noteq> Version_String E (version j) \<longrightarrow>
             (\<exists>w \<in> set gwse. \<exists>w' \<in> set gwse. w \<noteq> w'
                \<and> gatewayID w = ''/environments/'' @ Environment optse' @ ''/services/''
                      @ Value' optse' @ ''/'' @ Version_String E (version i)
                \<and> gatewayID w' = ''/environments/'' @ Environment optse' @ ''/services/''
                      @ Value' optse' @ ''/'' @ Version_String E (version j)))
       \<and> (optsc' = fillDefaultDiscoverOptions E optsc
            \<and> Health_Service cc (Environment optsc' @ ''-'' @ Value' optsc') [] True = Inr esc
            \<longrightarrow> gatewayURLs dc1 = gwsc \<and> effc = effsc)
       \<and> (optse' = fillDefaultDiscoverOptions E optse
            \<and> Get_Recursive ec (''environments/'' @ Environment optse' @ ''/services/''
                  @ Value' optse' @ ''/'') = Inr (Node k val vse)
            \<longrightarrow> gatewayURLs de1 = gwse \<and> effe = effse)"
proof -
  from consul_DiscoverService_result [OF assms(2)]
  have gc: "grown E (gatewayURLs dc, []) (gatewayURLs dc1, effc)" by simp
  from grown_take_drop [OF gc] assms(1)
  have c: "distinct (map gatewayID (gatewayURLs dc1))
       \<and> take (length (gatewayURLs dc)) (gatewayURLs dc1) = gatewayURLs dc
       \<and> effc = watch_effects (drop (length (gatewayURLs dc)) (gatewayURLs dc1))
       \<and> (\<forall>w \<in> set (drop (length (gatewayURLs dc)) (gatewayURLs dc1)).
             gatewayURL w = fst (GetString E (gatewayID w) ''gatewayUrl''))"
    by blast
  from etcd_DiscoverService_result [OF assms(5)]
  have ge: "grown E (gatewayURLs de, []) (gatewayURLs de1, effe)" by simp
  from grown_take_drop [OF ge] assms(4)
  have e: "distinct (map gatewayID (gatewayURLs de1))
       \<and> take (length (gatewayURLs de)) (gatewayURLs de1) = gatewayURLs de
       \<and> effe = watch_effects (drop (length (gatewayURLs de)) (gatewayURLs de1))
       \<and> (\<forall>w \<in> set (drop (length (gatewayURLs de)) (gatewayURLs de1)).
             gatewayURL w = fst (GetString E (gatewayID w) ''gatewayUrl''))"
    by blast
  have cc: "\<forall>i \<in> set disc. watcherNamespace E optsc' (version i) \<in> gatewayID ` set gwsc"
    using consul_entries_covered [OF assms(3)] by simp
  have ce: "\<forall>i \<in> set dise. watcherNamespace E optse' (version i) \<in> gatewayID ` set gwse"
    using etcd_versions_covered [OF assms(6)] by simp
  note rc = grown_reads [OF gc assms(1)]
  note re = grown_reads [OF ge assms(4)]
  have xc: "\<forall>i \<in> set disc.
             ''/environments/'' @ Environment optsc' @ ''/services/'' @ Value' optsc' @ ''/''
               @ Version_String E (version i) \<in> gatewayID ` set gwsc"
    using cc unfolding watcherNamespace_def .
  have xe: "\<forall>i \<in> set dise.
             ''/environments/'' @ Environment optse' @ ''/services/'' @ Value' optse' @ ''/''
               @ Version_String E (version i) \<in> gatewayID ` set gwse"
    using ce unfolding watcherNamespace_def .
  note tc = covered_two_versions [OF cc]
  note te = covered_two_versions [OF ce]
  have lc: "gatewayURLs dc1 = gwsc \<and> effc = effsc"
    if "optsc' = fillDefaultDiscoverOptions E optsc"
       "Health_Service cc (Environment optsc' @ ''-'' @ Value' optsc') [] True = Inr esc"
    using consul_DiscoverService_loop [OF _ _ assms(2), of esc pc disc gwsc effsc]
      that assms(3) by simp
  have le: "gatewayURLs de1 = gwse \<and> effe = effse"
    if "optse' = fillDefaultDiscoverOptions E optse"
       "Get_Recursive ec (''environments/'' @ Environment optse' @ ''/services/''
                  @ Value' optse' @ ''/'') = Inr (Node k val vse)"
    using etcd_DiscoverService_loop [OF _ _ assms(5), of "Node k val vse" pe dise gwse effse]
      that assms(6) by simp
  show ?thesis
    apply (intro conjI)
    using c apply blast
    using c apply blast
    using c apply blast
    using c apply blast
    using cc apply blast
    using e apply blast
    using e apply blast
    using e apply blast
    using e apply blast
    using ce apply blast
    apply (rule gatewayUrl_changed_ids)
    apply (rule gatewayUrl_changed_ids)
    using rc apply blast
    using rc apply blast
    using re apply blast
    using re apply blast
    apply (rule xc)
    apply (rule xe)
    apply (rule tc)
    apply (rule te)
    using lc apply blast
    using le apply blast
    done
qed

theorem gateway_watch_cache_grows_by_new_namespaces_witness:
  "distinct (map gatewayID (gatewayURLs (newConsulDiscoverySource 500 900000 None)))
   \<and> consul_DiscoverService example_E consul_two_versions
         (newConsulDiscoverySource 500 900000 None) discover_svc
       = (Inr (''https://10.0.0.7:8443'', None), consul_after_two_versions,
          [ConfigRead ''/environments/dev/services/svc/1.0.0'' ''gatewayUrl'',
           ConfigSubscribe ''/environments/dev/services/svc/1.0.0'' ''gatewayUrl'',
           ConfigRead ''/environments/dev/services/svc/2.0.0'' ''gatewayUrl'',
           ConfigSubscribe ''/environments/dev/services/svc/2.0.0'' ''gatewayUrl''])
   \<and> consul_entries example_E discover_svc [healthy_svc_entry, v2_svc_entry]
         ([], gatewayURLs (newConsulDiscoverySource 500 900000 None), [])
       = (None, ([\<lparr>service_id = ''svc-first'', version = (1, 0, 0),
                    directURL = ''http://10.0.0.5:8080''\<rparr>,
                  \<lparr>service_id = ''svc-third'', version = (2, 0, 0),
                    directURL = ''https://10.0.0.7:8443''\<rparr>],
                 gatewayURLs consul_after_two_versions,
                 [ConfigRead ''/environments/dev/services/svc/1.0.0'' ''gatewayUrl'',
                  ConfigSubscribe ''/environments/dev/services/svc/1.0.0'' ''gatewayUrl'',
                  ConfigRead ''/environments/dev/services/svc/2.0.0'' ''gatewayUrl'',
                  ConfigSubscribe ''/environments/dev/services/svc/2.0.0'' ''gatewayUrl'']))
   \<and> distinct (map gatewayID (gatewayURLs etcd_after_svc))
   \<and> etcd_DiscoverService example_E etcd_with_svc etcd_after_svc discover_svc
       = (Inr (''http://10.0.0.5:8080'', None), etcd_after_svc, [])
   \<and> etcd_versions example_E discover_svc (Nodes etcd_svc_tree)
         ([], gatewayURLs etcd_after_svc, [])
       = (None, ([\<lparr>service_id = ''first'', version = (1, 0, 0),
                    directURL = ''http://10.0.0.5:8080''\<rparr>],
                 gatewayURLs etcd_after_svc, []))
   \<and> gatewayURLs consul_after_two_versions
       = [\<lparr>gatewayID = ''/environments/dev/services/svc/1.0.0'', gatewayURL = []\<rparr>,
          \<lparr>gatewayID = ''/environments/dev/services/svc/2.0.0'', gatewayURL = []\<rparr>]
   \<and> distinct (map gatewayID (gatewayURLs consul_after_two_versions))
   \<and> [ConfigRead ''/environments/dev/services/svc/1.0.0'' ''gatewayUrl'',
       ConfigSubscribe ''/environments/dev/services/svc/1.0.0'' ''gatewayUrl'',
       ConfigRead ''/environments/dev/services/svc/2.0.0'' ''gatewayUrl'',
       ConfigSubscribe ''/environments/dev/services/svc/2.0.0'' ''gatewayUrl'']
      = watch_effects (drop (length (gatewayURLs (newConsulDiscoverySource 500 900000 None)))
                         (gatewayURLs consul_after_two_versions))
   \<and> [] = watch_effects (drop (length (gatewayURLs etcd_after_svc)) (gatewayURLs etcd_after_svc))
   \<and> consul_DiscoverService example_E consul_two_versions consul_after_two_versions discover_svc
       = (Inr (''https://10.0.0.7:8443'', None), consul_after_two_versions, [])"
proof -
  have gc: "gatewayURLs consul_after_two_versions
       = [\<lparr>gatewayID = ''/environments/dev/services/svc/1.0.0'', gatewayURL = []\<rparr>,
          \<lparr>gatewayID = ''/environments/dev/services/svc/2.0.0'', gatewayURL = []\<rparr>]"
    by (simp add: discover_defs example_defs v2_svc_entry_def consul_two_versions_def
        consul_after_two_versions_def)
  have ge: "gatewayURLs etcd_after_svc
            = [\<lparr>gatewayID = ''/environments/dev/services/svc/1.0.0'', gatewayURL = []\<rparr>]"
    by (simp add: discover_defs example_defs)
  have 1: "distinct (map gatewayID (gatewayURLs (newConsulDiscoverySource 500 900000 None)))"
    by (simp add: newConsulDiscoverySource_def)
  have 2: "consul_DiscoverService example_E consul_two_versions
         (newConsulDiscoverySource 500 900000 None) discover_svc
       = (Inr (''https://10.0.0.7:8443'', None), consul_after_two_versions,
          [ConfigRead ''/environments/dev/services/svc/1.0.0'' ''gatewayUrl'',
           ConfigSubscribe ''/environments/dev/services/svc/1.0.0'' ''gatewayUrl'',
           ConfigRead ''/environments/dev/services/svc/2.0.0'' ''gatewayUrl'',
           ConfigSubscribe ''/environments/dev/services/svc/2.0.0'' ''gatewayUrl''])"
    by (simp add: discover_defs example_defs v2_svc_entry_def consul_two_versions_def
        consul_after_two_versions_def)
  have 3: "consul_entries example_E discover_svc [healthy_svc_entry, v2_svc_entry]
         ([], gatewayURLs (newConsulDiscoverySource 500 900000 None), [])
       = (None, ([\<lparr>service_id = ''svc-first'', version = (1, 0, 0),
                    directURL = ''http://10.0.0.5:8080''\<rparr>,
                  \<lparr>service_id = ''svc-third'', version = (2, 0, 0),
                    directURL = ''https://10.0.0.7:8443''\<rparr>],
                 gatewayURLs consul_after_two_versions,
                 [ConfigRead ''/environments/dev/services/svc/1.0.0'' ''gatewayUrl'',
                  ConfigSubscribe ''/environments/dev/services/svc/1.0.0'' ''gatewayUrl'',
                  ConfigRead ''/environments/dev/services/svc/2.0.0'' ''gatewayUrl'',
                  ConfigSubscribe ''/environments/dev/services/svc/2.0.0'' ''gatewayUrl'']))"
    unfolding gc by (simp add: discover_defs example_defs v2_svc_entry_def consul_two_versions_def
        consul_after_two_versions_def)
  have 4: "distinct (map gatewayID (gatewayURLs etcd_after_svc))"
    unfolding ge by simp
  have 5: "etcd_DiscoverService example_E etcd_with_svc etcd_after_svc discover_svc
       = (Inr (''http://10.0.0.5:8080'', None), etcd_after_svc, [])"
    by (simp add: discover_defs example_defs)
  have 6: "etcd_versions example_E discover_svc (Nodes etcd_svc_tree)
         ([], gatewayURLs etcd_after_svc, [])
       = (None, ([\<lparr>service_id = ''first'', version = (1, 0, 0),
                    directURL = ''http://10.0.0.5:8080''\<rparr>],
                 gatewayURLs etcd_after_svc, []))"
    unfolding ge by (simp add: discover_defs example_defs)
  have 7: "consul_DiscoverService example_E consul_two_versions consul_after_two_versions discover_svc
       = (Inr (''https://10.0.0.7:8443'', None), consul_after_two_versions, [])"
    by (simp add: discover_defs example_defs v2_svc_entry_def consul_two_versions_def
        consul_after_two_versions_def)
  from gateway_watch_cache_grows_by_new_namespaces [OF 1 2 3 4 5 6]
  have "distinct (map gatewayID (gatewayURLs consul_after_two_versions))"
    "[ConfigRead ''/environments/dev/services/svc/1.0.0'' ''gatewayUrl'',
       ConfigSubscribe ''/environments/dev/services/svc/1.0.0'' ''gatewayUrl'',
       ConfigRead ''/environments/dev/services/svc/2.0.0'' ''gatewayUrl'',
       ConfigSubscribe ''/environments/dev/services/svc/2.0.0'' ''gatewayUrl'']
      = watch_effects (drop (length (gatewayURLs (newConsulDiscoverySource 500 900000 None)))
                         (gatewayURLs consul_after_two_versions))"
    "[] = watch_effects (drop (length (gatewayURLs etcd_after_svc)) (gatewayURLs etcd_after_svc))"
    by blast+
  with 1 2 3 4 5 6 7 gc show ?thesis by blast
qed

subsection \<open>Records whose version does not parse\<close>

lemma consul_scan_tags_unparseable:
  assumes "\<forall>t \<in> set pre. HasPrefix t ''version'' \<longrightarrow>
             (\<exists>t0 t1 ts v. Split t CHR ''='' = t0 # t1 # ts \<and> ParseTolerant E t1 = Inr v)"
      and "HasPrefix tag ''version''" and "Split tag CHR ''='' = t0 # t1 # ts"
      and "ParseTolerant E t1 = Inl err"
  shows "\<exists>ver' proto'. consul_scan_tags E (pre @ tag # post) (ver, ok, proto)
           = Inr (ver', False, proto')"
  using assms(1)
proof (induction pre arbitrary: ver ok proto)
  case Nil
  from assms(2-4) show ?case by simp
next
  case (Cons t pre)
  then have r: "\<forall>t \<in> set pre. HasPrefix t ''version'' \<longrightarrow>
             (\<exists>t0 t1 ts v. Split t CHR ''='' = t0 # t1 # ts \<and> ParseTolerant E t1 = Inr v)"
    by simp
  show ?case
  proof (cases "HasPrefix t ''version''")
    case True
    with Cons.prems obtain a b cs v where
      s: "Split t CHR ''='' = a # b # cs" "ParseTolerant E b = Inr v"
      by auto
    from Cons.IH [OF r, of v True proto] True s show ?thesis by simp
  next
    case False
    show ?thesis
    proof (cases "t = ''https''")
      case True
      from Cons.IH [OF r, of ver ok "''https''"] False True show ?thesis by simp
    next
      case h: False
      from Cons.IH [OF r, of ver ok proto] False h show ?thesis by simp
    qed
  qed
qed

lemma consul_entries_append:
  "consul_entries E opts (xs @ ys) s
   = (case consul_entries E opts xs s of
        (Some p, s') \<Rightarrow> (Some p, s')
      | (None, s') \<Rightarrow> consul_entries E opts ys s')"
proof (induction xs arbitrary: s)
  case Nil
  show ?case by simp
next
  case (Cons x xs)
  obtain dis gws effs where s: "s = (dis, gws, effs)" by (cases s)
  show ?case
  proof (cases "consul_scan_tags E (Service_Tags x) (Version_zero E, False, ''http'')")
    case (Inl q)
    with s show ?thesis by simp
  next
    case (Inr r)
    obtain ver ok proto where r: "r = (ver, ok, proto)" by (cases r)
    show ?thesis
    proof (cases ok)
      case False
      with Inr r s Cons.IH show ?thesis by simp
    next
      case True
      obtain g2 e2 where a: "add_watch E (watcherNamespace E opts ver) (gws, effs) = (g2, e2)"
        by (cases "add_watch E (watcherNamespace E opts ver) (gws, effs)")
      with True Inr r s Cons.IH show ?thesis by (simp add: Let_def)
    qed
  qed
qed

lemma etcd_versions_append:
  "etcd_versions E opts (xs @ ys) s
   = (case etcd_versions E opts xs s of
        (Some p, s') \<Rightarrow> (Some p, s')
      | (None, s') \<Rightarrow> etcd_versions E opts ys s')"
proof (induction xs arbitrary: s)
  case Nil
  show ?case by simp
next
  case (Cons x xs)
  show ?case
  proof (cases "find (\<lambda>n. Base (Key n) = ''instances'') (Nodes x)")
    case None
    then show ?thesis by simp
  next
    case (Some insts)
    with Cons.IH show ?thesis by simp
  qed
qed

lemma etcd_instances_unparseable:
  assumes "ParseTolerant E cv = Inl err"
  shows "etcd_instances E opts cv ns s = s"
proof (cases ns)
  case Nil
  then show ?thesis by simp
next
  case (Cons n ns')
  obtain dis gws effs where "s = (dis, gws, effs)" by (cases s)
  with Cons assms show ?thesis by simp
qed

text \<open>
  What holds of the code: when every tag before it that starts with \<open>version\<close> has a
  value after \<open>=\<close> that parses, a Consul entry with a \<open>version\<close> tag whose value after
  \<open>=\<close> is rejected by \<open>ParseTolerant\<close> is dropped and nothing else happens, and so is an
  etcd version node with an \<open>instances\<close> child whose name is rejected: the loop over the
  records, and so the whole \<open>DiscoverService\<close> call, gives the same result, source and
  effects as for the backend answer without that record.
\<close>

lemma parse_error_drops_record:
  assumes "Service_Tags bad = pre @ tag # post"
      and "\<forall>t \<in> set pre. HasPrefix t ''version'' \<longrightarrow>
             (\<exists>t0 t1 ts v. Split t CHR ''='' = t0 # t1 # ts \<and> ParseTolerant E t1 = Inr v)"
      and "HasPrefix tag ''version''" and "Split tag CHR ''='' = t0 # t1 # ts"
      and "ParseTolerant E t1 = Inl err"
      and "Health_Service c
             (Environment (fillDefaultDiscoverOptions E o0) @ ''-''
                @ Value' (fillDefaultDiscoverOptions E o0)) [] True = Inr (xs @ bad # ys)"
      and "Health_Service c'
             (Environment (fillDefaultDiscoverOptions E o0) @ ''-''
                @ Value' (fillDefaultDiscoverOptions E o0)) [] True = Inr (xs @ ys)"
      and "find (\<lambda>n. Base (Key n) = ''instances'') (Nodes badv) = Some insts"
      and "ParseTolerant E (Base (Key badv)) = Inl err'"
      and "Get_Recursive e
             (''environments/'' @ Environment (fillDefaultDiscoverOptions E o0)
                @ ''/services/'' @ Value' (fillDefaultDiscoverOptions E o0) @ ''/'')
           = Inr (Node k [] (vs @ badv # ws))"
      and "Get_Recursive e'
             (''environments/'' @ Environment (fillDefaultDiscoverOptions E o0)
                @ ''/services/'' @ Value' (fillDefaultDiscoverOptions E o0) @ ''/'')
           = Inr (Node k [] (vs @ ws))"
  shows "consul_entries E opts (xs @ bad # ys) s = consul_entries E opts (xs @ ys) s
       \<and> consul_DiscoverService E c dc o0 = consul_DiscoverService E c' dc o0
       \<and> etcd_versions E opts (vs @ badv # ws) s = etcd_versions E opts (vs @ ws) s
       \<and> etcd_DiscoverService E e de o0 = etcd_DiscoverService E e' de o0"
proof -
  from consul_scan_tags_unparseable [OF assms(2-5), of post "Version_zero E" False "''http''"]
  obtain ver' proto' where
    "consul_scan_tags E (Service_Tags bad) (Version_zero E, False, ''http'')
     = Inr (ver', False, proto')"
    unfolding assms(1) by blast
  then have b: "consul_entries E opts' (bad # ys) s' = consul_entries E opts' ys s'" for opts' s'
    by (cases s') simp
  have 1: "consul_entries E opts' (xs @ bad # ys) s' = consul_entries E opts' (xs @ ys) s'"
    for opts' s'
  proof -
    obtain p st where x: "consul_entries E opts' xs s' = (p, st)"
      by (cases "consul_entries E opts' xs s'")
    show ?thesis
      unfolding consul_entries_append [of E opts' xs] x
      by (cases p) (simp_all only: prod.case option.case b)
  qed
  have 2: "consul_DiscoverService E c dc o0 = consul_DiscoverService E c' dc o0"
    using assms(6,7) by (simp add: consul_DiscoverService_def Let_def 1)
  have v: "etcd_versions E opts' (badv # ws) s' = etcd_versions E opts' ws s'" for opts' s'
    using assms(8,9) by (simp add: etcd_instances_unparseable)
  have 3: "etcd_versions E opts' (vs @ badv # ws) s' = etcd_versions E opts' (vs @ ws) s'"
    for opts' s'
  proof -
    obtain p st where x: "etcd_versions E opts' vs s' = (p, st)"
      by (cases "etcd_versions E opts' vs s'")
    show ?thesis
      unfolding etcd_versions_append [of E opts' vs] x
      by (cases p) (simp_all only: prod.case option.case v)
  qed
  have 4: "etcd_DiscoverService E e de o0 = etcd_DiscoverService E e' de o0"
    using assms(10,11) by (simp add: etcd_DiscoverService_def Let_def 3)
  from 1 2 3 4 show ?thesis by simp
qed

lemma parse_error_drops_record_example:
  "consul_DiscoverService example_E consul_with_bad_version
         (newConsulDiscoverySource 500 900000 None) discover_svc
       = (Inr (''http://10.0.0.5:8080'', None), consul_after_svc,
          [ConfigRead ''/environments/dev/services/svc/1.0.0'' ''gatewayUrl'',
           ConfigSubscribe ''/environments/dev/services/svc/1.0.0'' ''gatewayUrl''])
   \<and> etcd_DiscoverService example_E etcd_with_bad_version
         (newEtcdDiscoverySource 500 900000) discover_svc
       = (Inr (''http://10.0.0.5:8080'', None), etcd_after_svc,
          [ConfigRead ''/environments/dev/services/svc/1.0.0'' ''gatewayUrl'',
           ConfigSubscribe ''/environments/dev/services/svc/1.0.0'' ''gatewayUrl''])"
proof -
  let ?insts = "Node ''/environments/dev/services/svc/latest/instances'' []
          [Node ''/environments/dev/services/svc/latest/instances/second'' []
             [Node ''/environments/dev/services/svc/latest/instances/second/url''
                ''http://10.0.0.6:8443'' []]]"
  have q: "Environment (fillDefaultDiscoverOptions example_E discover_svc) @ ''-''
             @ Value' (fillDefaultDiscoverOptions example_E discover_svc) = ''dev-svc''"
          "''environments/'' @ Environment (fillDefaultDiscoverOptions example_E discover_svc)
             @ ''/services/'' @ Value' (fillDefaultDiscoverOptions example_E discover_svc) @ ''/''
           = ''environments/dev/services/svc/''"
    by (simp_all add: example_E_def spec_fillDefaultDiscoverOptions_def discover_svc_def)
  have 1: "Service_Tags bad_version_entry = [''https'', ''version=1.0.0''] @ ''version=abc'' # []"
    by (simp add: bad_version_entry_def)
  have s1: "Split ''version=1.0.0'' CHR ''='' = ''version'' # ''1.0.0'' # []"
    by simp
  have p1: "ParseTolerant example_E ''1.0.0'' = Inr (1, 0, 0)"
    by (simp add: example_E_def example_parse_def)
  have 2: "\<forall>t \<in> set [''https'', ''version=1.0.0'']. HasPrefix t ''version'' \<longrightarrow>
             (\<exists>t0 t1 ts v. Split t CHR ''='' = t0 # t1 # ts \<and> ParseTolerant example_E t1 = Inr v)"
    using s1 p1 by (simp add: HasPrefix_def)
  have 3: "HasPrefix ''version=abc'' ''version''"
    by (simp add: HasPrefix_def)
  have 4: "Split ''version=abc'' CHR ''='' = ''version'' # ''abc'' # []"
    by simp
  have 5: "ParseTolerant example_E ''abc'' = Inl (Error ''Invalid character(s) found in major number'')"
    by (simp add: example_E_def example_parse_def)
  have 6: "Health_Service consul_with_bad_version
             (Environment (fillDefaultDiscoverOptions example_E discover_svc) @ ''-''
                @ Value' (fillDefaultDiscoverOptions example_E discover_svc)) [] True
           = Inr ([healthy_svc_entry] @ bad_version_entry # [])"
    unfolding q by (simp add: consul_with_bad_version_def)
  have 7: "Health_Service consul_one_healthy
             (Environment (fillDefaultDiscoverOptions example_E discover_svc) @ ''-''
                @ Value' (fillDefaultDiscoverOptions example_E discover_svc)) [] True
           = Inr ([healthy_svc_entry] @ [])"
    unfolding q by (simp add: consul_one_healthy_def)
  have 8: "find (\<lambda>n. Base (Key n) = ''instances'') (Nodes bad_version_node) = Some ?insts"
    by (simp add: bad_version_node_def Base_def last_element_def strip_trailing_slashes_def)
  have 9: "ParseTolerant example_E (Base (Key bad_version_node))
           = Inl (Error ''Invalid character(s) found in major number'')"
    by (simp add: bad_version_node_def Base_def last_element_def strip_trailing_slashes_def
        example_E_def example_parse_def)
  have 10: "Get_Recursive etcd_with_bad_version
             (''environments/'' @ Environment (fillDefaultDiscoverOptions example_E discover_svc)
                @ ''/services/'' @ Value' (fillDefaultDiscoverOptions example_E discover_svc) @ ''/'')
           = Inr (Node ''/environments/dev/services/svc'' []
                    (Nodes etcd_svc_tree @ bad_version_node # []))"
    unfolding q by (simp add: etcd_with_bad_version_def)
  have 11: "Get_Recursive etcd_with_svc
             (''environments/'' @ Environment (fillDefaultDiscoverOptions example_E discover_svc)
                @ ''/services/'' @ Value' (fillDefaultDiscoverOptions example_E discover_svc) @ ''/'')
           = Inr (Node ''/environments/dev/services/svc'' [] (Nodes etcd_svc_tree @ []))"
    unfolding q by (simp add: etcd_with_svc_def etcd_svc_tree_def)
  from parse_error_drops_record
         [where dc = "newConsulDiscoverySource 500 900000 None"
            and de = "newEtcdDiscoverySource 500 900000", OF 1 2 3 4 5 6 7 8 9 10 11]
  have "consul_DiscoverService example_E consul_with_bad_version
           (newConsulDiscoverySource 500 900000 None) discover_svc
         = consul_DiscoverService example_E consul_one_healthy
           (newConsulDiscoverySource 500 900000 None) discover_svc"
       "etcd_DiscoverService example_E etcd_with_bad_version
           (newEtcdDiscoverySource 500 900000) discover_svc
         = etcd_DiscoverService example_E etcd_with_svc
           (newEtcdDiscoverySource 500 900000) discover_svc"
    by blast+
  then show ?thesis
    using consul_after_svc_eq etcd_after_svc_eq by simp
qed

text \<open>
  C9, at the failing inputs. Beside a healthy instance of version \<open>1.0.0\<close>, which alone is
  discovered at \<open>http://10.0.0.5:8080\<close>, the Consul agent returns an entry tagged
  \<open>version-abc\<close>: the tag starts with \<open>version\<close>, splitting it at \<open>=\<close> gives one part,
  and reading the second part panics with an index out of range before anything is parsed,
  so the call returns nothing although the first record parses. With etcd, a version node
  \<open>latest\<close> that has no \<open>instances\<close> child makes the call panic with a nil pointer
  dereference in the same way.
\<close>

theorem version_tag_without_equals_is_fatal:
  "consul_DiscoverService example_E consul_one_healthy
       (newConsulDiscoverySource 500 900000 None) discover_svc
     = (Inr (''http://10.0.0.5:8080'', None), consul_after_svc,
        [ConfigRead ''/environments/dev/services/svc/1.0.0'' ''gatewayUrl'',
         ConfigSubscribe ''/environments/dev/services/svc/1.0.0'' ''gatewayUrl''])
   \<and> Health_Service consul_with_no_equals_tag ''dev-svc'' [] True
       = Inr [healthy_svc_entry, no_equals_entry]
   \<and> Service_Tags no_equals_entry = [''version-abc'']
   \<and> consul_DiscoverService example_E consul_with_no_equals_tag
         (newConsulDiscoverySource 500 900000 None) discover_svc
       = (Inl IndexOutOfRange,
          (newConsulDiscoverySource 500 900000 None)
            \<lparr>gatewayURLs := [\<lparr>gatewayID = ''/environments/dev/services/svc/1.0.0'',
                               gatewayURL = []\<rparr>]\<rparr>,
          [ConfigRead ''/environments/dev/services/svc/1.0.0'' ''gatewayUrl'',
           ConfigSubscribe ''/environments/dev/services/svc/1.0.0'' ''gatewayUrl''])
   \<and> etcd_DiscoverService example_E etcd_with_svc
       (newEtcdDiscoverySource 500 900000) discover_svc
     = (Inr (''http://10.0.0.5:8080'', None), etcd_after_svc,
        [ConfigRead ''/environments/dev/services/svc/1.0.0'' ''gatewayUrl'',
         ConfigSubscribe ''/environments/dev/services/svc/1.0.0'' ''gatewayUrl''])
   \<and> Get_Recursive etcd_with_no_instances ''environments/dev/services/svc/''
       = Inr (Node ''/environments/dev/services/svc'' []
                (Nodes etcd_svc_tree @ [no_instances_node]))
   \<and> etcd_DiscoverService example_E etcd_with_no_instances
         (newEtcdDiscoverySource 500 900000) discover_svc
       = (Inl NilPointerDereference,
          (newEtcdDiscoverySource 500 900000)
            \<lparr>gatewayURLs := [\<lparr>gatewayID = ''/environments/dev/services/svc/1.0.0'',
                               gatewayURL = []\<rparr>]\<rparr>,
          [ConfigRead ''/environments/dev/services/svc/1.0.0'' ''gatewayUrl'',
           ConfigSubscribe ''/environments/dev/services/svc/1.0.0'' ''gatewayUrl''])"
  by (simp add: discover_defs example_defs no_equals_entry_def consul_with_no_equals_tag_def
      no_instances_node_def etcd_with_no_instances_def)

subsection \<open>Falling back after a failure\<close>




end
